theory Spec2Isabelle
  imports Complex_Main "HOL-Library.AList"
begin

section \<open>JavaScript strings\<close>

text \<open>
  A JavaScript string is modelled as a \<^typ>\<open>string\<close>, one \<^typ>\<open>char\<close> per code
  unit, read as Latin-1 (code units below 256). \<open>length\<close> is the \<open>.length\<close> of the
  source. The character classes below are the members of the ECMAScript classes that
  lie in this range; the properties proved of the split and of the merges hold for any
  choice of these classes.
\<close>

definition isLineTerminator :: "char \<Rightarrow> bool" where
  \<comment> \<open>LineTerminator: LF, CR (U+2028 and U+2029 lie outside the modelled range)\<close>
  "isLineTerminator c \<longleftrightarrow> (of_char c :: nat) \<in> {10, 13}"

definition isWhiteSpace :: "char \<Rightarrow> bool" where
  \<comment> \<open>the regular expression class \<open>\s\<close> and the characters removed by \<open>trim\<close>:
      TAB, LF, VT, FF, CR, SPACE, NBSP\<close>
  "isWhiteSpace c \<longleftrightarrow> (of_char c :: nat) \<in> {9, 10, 11, 12, 13, 32, 160}"

definition trim :: "string \<Rightarrow> string" where
  "trim s = rev (dropWhile isWhiteSpace (rev (dropWhile isWhiteSpace s)))"

definition lowerChar :: "char \<Rightarrow> char" where
  \<comment> \<open>A-Z and the Latin-1 capitals U+00C0..U+00DE (without the sign U+00D7) move up by 32\<close>
  "lowerChar c =
     (let n = (of_char c :: nat)
      in if (65 \<le> n \<and> n \<le> 90) \<or> (192 \<le> n \<and> n \<le> 222 \<and> n \<noteq> 215)
         then char_of (n + 32) else c)"

definition toLowerCase :: "string \<Rightarrow> string" where
  "toLowerCase s = map lowerChar s"

fun startsWith :: "string \<Rightarrow> string \<Rightarrow> bool" where
  "startsWith s [] = True"
| "startsWith [] (p # ps) = False"
| "startsWith (c # cs) (p # ps) = (c = p \<and> startsWith cs ps)"

fun includesStr :: "string \<Rightarrow> string \<Rightarrow> bool" where
  \<comment> \<open>\<open>s.includes(sub)\<close>\<close>
  "includesStr [] sub = (sub = [])"
| "includesStr (c # cs) sub = (startsWith (c # cs) sub \<or> includesStr cs sub)"

fun intercalate :: "string \<Rightarrow> string list \<Rightarrow> string" where
  \<comment> \<open>\<open>xs.join(sep)\<close>\<close>
  "intercalate sep [] = []"
| "intercalate sep [x] = x"
| "intercalate sep (x # y # ys) = x @ sep @ intercalate sep (y # ys)"

fun showNat :: "nat \<Rightarrow> string" where
  \<comment> \<open>the decimal digits of a non-negative integer, as template literals print it\<close>
  "showNat n =
     (if n < 10 then [char_of (48 + n)]
      else showNat (n div 10) @ [char_of (48 + n mod 10)])"

declare showNat.simps [simp del]

section \<open>Token utilities (src/token-utils.ts)\<close>

definition estimateTokens :: "string \<Rightarrow> nat" where
  \<comment> \<open>\<open>Math.ceil(text.length / 4)\<close>\<close>
  "estimateTokens text = (length text + 3) div 4"

text \<open>
  \<open>text.split(/(?=^##\s)/m)\<close>. The pattern is a zero-width lookahead, so the split
  keeps every character. It matches at a position whose previous character is a line
  terminator (or at the start of the text) and whose next three characters are two
  hash signs and a white space character. \<open>split\<close> never cuts at the start of the
  current piece, which is the test \<open>cur \<noteq> []\<close>.
\<close>

fun sectionStart :: "char option \<Rightarrow> string \<Rightarrow> bool" where
  "sectionStart prev (a # b # c # rest) =
     ((case prev of None \<Rightarrow> True | Some p \<Rightarrow> isLineTerminator p)
      \<and> a = CHR ''#'' \<and> b = CHR ''#'' \<and> isWhiteSpace c)"
| "sectionStart prev rest = False"

fun splitSectionsFrom :: "char option \<Rightarrow> string \<Rightarrow> string \<Rightarrow> string list" where
  "splitSectionsFrom prev cur [] = [cur]"
| "splitSectionsFrom prev cur (c # rest) =
     (if cur \<noteq> [] \<and> sectionStart prev (c # rest)
      then cur # splitSectionsFrom (Some c) [c] rest
      else splitSectionsFrom (Some c) (cur @ [c]) rest)"

definition splitSections :: "string \<Rightarrow> string list" where
  "splitSections text = splitSectionsFrom None [] text"

text \<open>
  The loop of \<open>splitByTokens\<close> over the sections, with its three variables
  \<open>currentChunk\<close>, \<open>currentTokens\<close> and \<open>chunks\<close>. An empty string is falsy.
\<close>

fun packSections :: "int \<Rightarrow> string list \<Rightarrow> string \<Rightarrow> nat \<Rightarrow> string list \<Rightarrow> string list" where
  "packSections maxTokens [] currentChunk currentTokens chunks =
     (if currentChunk \<noteq> [] then chunks @ [currentChunk] else chunks)"
| "packSections maxTokens (sect # sections) currentChunk currentTokens chunks =
     (let sectionTokens = estimateTokens sect
      in if int (currentTokens + sectionTokens) > maxTokens \<and> currentChunk \<noteq> []
         then packSections maxTokens sections sect sectionTokens (chunks @ [currentChunk])
         else packSections maxTokens sections (currentChunk @ sect)
                (currentTokens + sectionTokens) chunks)"

definition splitByTokens :: "string \<Rightarrow> int \<Rightarrow> string list" where
  "splitByTokens text maxTokens =
     (if int (estimateTokens text) \<le> maxTokens then [text]
      else packSections maxTokens (splitSections text) [] 0 [])"

section \<open>Data model (src/types.ts)\<close>

datatype SalesCategory =
  PROSPECTING | DISCOVERY | NURTURE | CLOSING | SALES_COMMS | CADENCES | STRATEGY | TEMPLATES
  | TACTICS

fun categoryValue :: "SalesCategory \<Rightarrow> string" where
  "categoryValue PROSPECTING = ''prospecting''"
| "categoryValue DISCOVERY = ''discovery''"
| "categoryValue NURTURE = ''nurture''"
| "categoryValue CLOSING = ''closing''"
| "categoryValue SALES_COMMS = ''sales_comms''"
| "categoryValue CADENCES = ''cadences''"
| "categoryValue STRATEGY = ''strategy''"
| "categoryValue TEMPLATES = ''templates''"
| "categoryValue TACTICS = ''tactics''"

record engagement_counts =
  likes :: int
  comments :: int
  shares :: int

record linkedin_post =
  post_id :: string
  content :: string
  publishedAt :: string
  engagement :: engagement_counts
  url :: string
  author :: string
  contentType :: "string option"
  links :: "string list option"
  imageUrls :: "string list option"

record sales_insight =
  insight_id :: string
  category :: SalesCategory
  insight :: string
  sourcePost :: linkedin_post
  confidence :: real
  extractedAt :: string
  actionableItems :: "string list"
  insight_templates :: "string list"

record methodology =
  name :: string
  description :: string
  application :: "string option"

text \<open>The aggregated form \<open>{...methodology, sources}\<close> extends the record.\<close>

record combined_methodology = methodology +
  sources :: "string list"

record expert_config =
  username :: string
  weight :: "real option"
  expert_postLimit :: "nat option"

text \<open>
  \<open>InsightAnalysis\<close>, with the fields the aggregation reads; \<open>methodologies\<close> is
  optional in the source.
\<close>

record insight_analysis =
  posts :: "linkedin_post list"
  insights :: "sales_insight list"
  summary :: string
  actionableInstructions :: "string list"
  templates :: "string list"
  methodologies :: "methodology list option"

record expert_analysis =
  expert :: expert_config
  analysis :: insight_analysis

section \<open>Aggregation (src/aggregation-formatter.ts)\<close>

text \<open>
  \<open>deduplicateInsights\<close>: two nested \<open>for ... of\<close> loops over the experts and their
  insights carry the set \<open>seenInsights\<close> and the array \<open>allInsights\<close>. The final
  \<open>sort((a, b) => b.confidence - a.confidence)\<close> is stable (ECMAScript 2019), so it is
  the stable sort on the negated confidence.
\<close>

definition insightStep ::
  "string set \<times> sales_insight list \<Rightarrow> sales_insight \<Rightarrow> string set \<times> sales_insight list" where
  "insightStep st ins =
     (let normalized = trim (toLowerCase (insight ins))
      in if normalized \<notin> fst st then (insert normalized (fst st), snd st @ [ins]) else st)"

definition AggregationFormatter_deduplicateInsights ::
  "expert_analysis list \<Rightarrow> sales_insight list" where
  "AggregationFormatter_deduplicateInsights expertAnalyses =
     sort_key (\<lambda>i. - confidence i)
       (snd (fold (\<lambda>expertAnalysis st.
                     fold (\<lambda>ins st'. insightStep st' ins) (insights (analysis expertAnalysis)) st)
               expertAnalyses ({}, [])))"

text \<open>
  \<open>combineMethodologies\<close>: the \<open>Map\<close> keeps its keys in insertion order, so it is an
  association list; \<open>set\<close> on a new key appends, and pushing a source changes the
  entry in place.
\<close>

definition methodologyStep ::
  "string \<Rightarrow> (string \<times> combined_methodology) list \<Rightarrow> methodology
     \<Rightarrow> (string \<times> combined_methodology) list" where
  "methodologyStep expertName methodologyMap m =
     (let key = toLowerCase (name m)
      in case map_of methodologyMap key of
           Some existing \<Rightarrow>
             if expertName \<in> set (sources existing) then methodologyMap
             else AList.update key (existing\<lparr>sources := sources existing @ [expertName]\<rparr>)
                    methodologyMap
         | None \<Rightarrow>
             methodologyMap @
               [(key, \<lparr>name = name m, description = description m, application = application m,
                       sources = [expertName]\<rparr>)])"

definition expertMethodologies :: "expert_analysis \<Rightarrow> methodology list" where
  \<comment> \<open>\<open>expertAnalysis.analysis.methodologies || []\<close>\<close>
  "expertMethodologies expertAnalysis =
     (case methodologies (analysis expertAnalysis) of None \<Rightarrow> [] | Some ms \<Rightarrow> ms)"

definition combineMethodologies :: "expert_analysis list \<Rightarrow> combined_methodology list" where
  "combineMethodologies expertAnalyses =
     map snd
       (fold (\<lambda>expertAnalysis methodologyMap.
                fold (\<lambda>m mp. methodologyStep (username (expert expertAnalysis)) mp m)
                  (expertMethodologies expertAnalysis) methodologyMap)
          expertAnalyses [])"

text \<open>
  The same results in the words of the specification: keep the first element for each
  key, in order of first occurrence.
\<close>

fun keepFirstByKey :: "('a \<Rightarrow> 'k) \<Rightarrow> 'a list \<Rightarrow> 'a list" where
  "keepFirstByKey key [] = []"
| "keepFirstByKey key (x # xs) = x # keepFirstByKey key (filter (\<lambda>y. key y \<noteq> key x) xs)"

definition insightKey :: "sales_insight \<Rightarrow> string" where
  "insightKey i = trim (toLowerCase (insight i))"

definition allExpertInsights :: "expert_analysis list \<Rightarrow> sales_insight list" where
  "allExpertInsights expertAnalyses = concat (map (\<lambda>e. insights (analysis e)) expertAnalyses)"

definition mergedInsights_spec :: "expert_analysis list \<Rightarrow> sales_insight list" where
  "mergedInsights_spec expertAnalyses =
     sort_key (\<lambda>i. - confidence i) (keepFirstByKey insightKey (allExpertInsights expertAnalyses))"

definition methodologyReports :: "expert_analysis list \<Rightarrow> (string \<times> methodology) list" where
  \<comment> \<open>every reported methodology with the username of the reporting expert, in order\<close>
  "methodologyReports expertAnalyses =
     concat (map (\<lambda>e. map (\<lambda>m. (username (expert e), m)) (expertMethodologies e)) expertAnalyses)"

definition methodologyKey :: "string \<times> methodology \<Rightarrow> string" where
  "methodologyKey r = toLowerCase (name (snd r))"

definition contributors :: "(string \<times> methodology) list \<Rightarrow> string \<Rightarrow> string list" where
  \<comment> \<open>the usernames reporting the key, each once, in order of first report\<close>
  "contributors reports key =
     keepFirstByKey (\<lambda>u. u) (map fst (filter (\<lambda>r. methodologyKey r = key) reports))"

definition mergedMethodologies_spec ::
  "(string \<times> methodology) list \<Rightarrow> combined_methodology list" where
  "mergedMethodologies_spec reports =
     map (\<lambda>r. \<lparr>name = name (snd r), description = description (snd r),
                application = application (snd r),
                sources = contributors reports (methodologyKey r)\<rparr>)
       (keepFirstByKey methodologyKey reports)"

definition mergedEntry ::
  "(string \<times> methodology) list \<Rightarrow> string \<times> methodology \<Rightarrow> combined_methodology" where
  \<comment> \<open>the merged methodology that the report \<open>r\<close> opens, among the reports given\<close>
  "mergedEntry reports r =
     \<lparr>name = name (snd r), description = description (snd r), application = application (snd r),
      sources = contributors reports (methodologyKey r)\<rparr>"

definition mergedMap ::
  "(string \<times> methodology) list \<Rightarrow> (string \<times> combined_methodology) list" where
  "mergedMap reports =
     map (\<lambda>r. (methodologyKey r, mergedEntry reports r)) (keepFirstByKey methodologyKey reports)"

section \<open>Worker: stored data and collaborators (services/worker)\<close>

text \<open>
  A thrown value, with the two properties the worker reads: \<open>code\<close> (set on the
  errors the relational store returns) and \<open>message\<close>.
\<close>

datatype js_error = JsError (err_code: "string option") (err_message: "string option")

datatype run_status = Queued | Needs_login | Running | Failed | Completed

fun statusName :: "run_status \<Rightarrow> string" where
  "statusName Queued = ''queued''"
| "statusName Needs_login = ''needs_login''"
| "statusName Running = ''running''"
| "statusName Failed = ''failed''"
| "statusName Completed = ''completed''"

type_synonym cookie = string

record run_config =
  profileUrls :: "string list"
  topics :: "string list"
  outputFormat :: string
  postLimit :: nat

record run_row =
  user_id :: string
  status :: run_status
  config :: run_config
  needs_login_url :: "string option"
  failure_reason :: "string option"
  token_estimate :: int
  cost_estimate :: "real option"
  started_at :: "string option"
  completed_at :: "string option"

record browserless_session =
  sessionId :: string
  connectUrl :: string
  wsEndpoint :: string
  expiresAt :: "string option"

datatype event_payload =
    LoginPayload browserless_session string
  | StatusPayload "string option"
  | CompletedPayload int nat nat

fun payloadExpiresAt :: "event_payload \<Rightarrow> string option" where
  \<comment> \<open>\<open>pending.expiresAt\<close>\<close>
  "payloadExpiresAt (LoginPayload session uid) = expiresAt session"
| "payloadExpiresAt other = None"

record run_event =
  event_run_id :: string
  event_type :: string
  payload :: event_payload

record linked_session =
  session_user_id :: string
  provider :: string
  encrypted_payload :: string
  encryption_algorithm :: string
  expires_at :: "string option"
  is_active :: bool

record usage_counter =
  runs_used :: int
  tokens_used :: int

record run_artifact =
  artifact_run_id :: string
  artifact_type :: string
  storage_path :: string
  content_sha256 :: string
  bytes :: nat

record run_job_data =
  runId :: string
  userId :: string

record queue_job =
  job_name :: string
  job_data :: run_job_data
  delay :: nat

text \<open>
  The state the worker acts on: the tables of the relational store, the artifact
  bucket and the delayed-job queue. Two fields record calls: \<open>runs_updates\<close> lists the
  accepted \<open>UPDATE\<close>s of \<open>runs.status\<close> in order, \<open>scraper_closes\<close> counts the calls
  of \<open>scraper.close()\<close>. Rows are kept in insertion order, which is the order of
  \<open>created_at\<close>.
\<close>

record world =
  runs :: "string \<rightharpoonup> run_row"
  run_events :: "run_event list"
  linked_sessions :: "linked_session list"
  usage_counters :: "string \<times> string \<rightharpoonup> usage_counter"
  run_artifacts :: "run_artifact list"
  storage_objects :: "string \<rightharpoonup> string"
  requeueQueue :: "queue_job list"
  runs_updates :: "(string \<times> run_status) list"
  scraper_closes :: nat

datatype db_call =
    SelectRun | SelectActiveSession | SelectLoginEvent | DeactivateSessions | InsertSession
  | UpdateRun run_status | InsertEvent string | SelectUsage | UpsertUsage
  | UploadObject string | InsertArtifact string

record scraping_config =
  linkedinUsername :: string
  focusTopics :: "string list"
  sc_postLimit :: nat
  sc_outputFormat :: string

record analysis_like =
  like_actionableInstructions :: "string list option"
  like_posts :: "linkedin_post list option"
  tokenUsage :: "int option"

record scrape_result =
  allPosts :: "linkedin_post list"
  byExpert :: "(string \<times> linkedin_post list) list"

record expert_file =
  file_username :: string
  file_content :: string

record knowledge_bundle =
  instructionsMarkdown :: string
  expertMarkdownFiles :: "expert_file list"

record active_session =
  cookies :: "cookie list"
  session_expiresAt :: "string option"

text \<open>
  What the collaborators answer during one job. \<open>db_error\<close> is the error, if any, that
  the store returns for a statement of the given kind (every statement of one kind gets
  the same answer during the job); the browser service, the scraper, the analyzer and
  the formatter either throw or return. The queue accepts every job. \<open>now\<close> is
  \<open>new Date().toISOString()\<close>.
\<close>

record worker_env =
  db_error :: "db_call \<Rightarrow> js_error option"
  requeueDelayMs :: nat
  costPerMillionTokens :: real
  now :: string
  createSession :: "js_error + browserless_session"
  captureCookiesFromSession :: "event_payload \<Rightarrow> js_error + cookie list"
  encryptCookies :: "cookie list \<Rightarrow> string"
  decryptCookies :: "string \<Rightarrow> js_error + cookie list"
  scraper_init :: "cookie list \<Rightarrow> js_error option"
  scraper_scrapeProfiles :: "string list \<Rightarrow> nat \<Rightarrow> string list \<Rightarrow> js_error + scrape_result"
  scraper_exportCookies :: "js_error + cookie list"
  scraper_close :: "js_error option"
  loadInsightAnalyzerCtor :: "js_error option"
  analyzeInsights :: "linkedin_post list \<Rightarrow> scraping_config \<Rightarrow> js_error + analysis_like"
  loadFormatterInstance :: "js_error option"
  formatThreeFiles :: "analysis_like \<Rightarrow> scraping_config \<Rightarrow> js_error + string"
  sha256_hex :: "string \<Rightarrow> string"
  byteLength :: "string \<Rightarrow> nat"

section \<open>Worker: effects\<close>

text \<open>
  An asynchronous function is a function of the state that returns the new state and
  either the thrown value (\<open>Inl\<close>) or the result (\<open>Inr\<close>).
\<close>

type_synonym 'a io = "world \<Rightarrow> (js_error + 'a) \<times> world"

definition returnE :: "'a \<Rightarrow> 'a io" where
  "returnE x = (\<lambda>w. (Inr x, w))"

definition throwE :: "js_error \<Rightarrow> 'a io" where
  "throwE e = (\<lambda>w. (Inl e, w))"

definition bindE :: "'a io \<Rightarrow> ('a \<Rightarrow> 'b io) \<Rightarrow> 'b io" where
  "bindE m k = (\<lambda>w. case m w of (Inl e, w') \<Rightarrow> (Inl e, w') | (Inr x, w') \<Rightarrow> k x w')"

definition tryCatch :: "'a io \<Rightarrow> (js_error \<Rightarrow> 'a io) \<Rightarrow> 'a io" where
  "tryCatch m handler = (\<lambda>w. case m w of (Inl e, w') \<Rightarrow> handler e w' | (Inr x, w') \<Rightarrow> (Inr x, w'))"

definition tryFinally :: "'a io \<Rightarrow> unit io \<Rightarrow> 'a io" where
  "tryFinally m cleanup =
     (\<lambda>w. case m w of (r, w') \<Rightarrow>
        (case cleanup w' of (Inl e, w'') \<Rightarrow> (Inl e, w'') | (Inr u, w'') \<Rightarrow> (r, w'')))"

definition liftE :: "js_error + 'a \<Rightarrow> 'a io" where
  \<comment> \<open>awaiting a collaborator\<close>
  "liftE r = (\<lambda>w. (r, w))"

definition throwIf :: "js_error option \<Rightarrow> unit io" where
  \<comment> \<open>\<open>if (error) throw error\<close>\<close>
  "throwIf err = (case err of Some e \<Rightarrow> throwE e | None \<Rightarrow> returnE ())"

definition modifyW :: "(world \<Rightarrow> world) \<Rightarrow> unit io" where
  "modifyW f = (\<lambda>w. (Inr (), f w))"

fun forEachE :: "('a \<Rightarrow> unit io) \<Rightarrow> 'a list \<Rightarrow> unit io" where
  "forEachE f [] = returnE ()"
| "forEachE f (x # xs) = bindE (f x) (\<lambda>u. forEachE f xs)"

fun mapE :: "('a \<Rightarrow> 'b io) \<Rightarrow> 'a list \<Rightarrow> 'b list io" where
  "mapE f [] = returnE []"
| "mapE f (x # xs) = bindE (f x) (\<lambda>y. bindE (mapE f xs) (\<lambda>ys. returnE (y # ys)))"

text \<open>
  \<open>.single()\<close> answers a row or the error \<open>PGRST116\<close> when there is none, and no row
  with the error of the store when the statement fails. \<open>checked\<close> is
  \<open>if (error && error.code !== 'PGRST116') throw error; return data\<close>.
\<close>

definition noRowsError :: js_error where
  "noRowsError = JsError (Some ''PGRST116'') (Some ''no rows returned'')"

definition single :: "js_error option \<Rightarrow> 'r option \<Rightarrow> 'r option \<times> js_error option" where
  "single fault row =
     (case fault of
        Some e \<Rightarrow> (None, Some e)
      | None \<Rightarrow> (case row of None \<Rightarrow> (None, Some noRowsError) | Some r \<Rightarrow> (Some r, None)))"

definition checked :: "'r option \<times> js_error option \<Rightarrow> js_error + 'r option" where
  "checked res =
     (case snd res of
        Some e \<Rightarrow> if err_code e \<noteq> Some ''PGRST116'' then Inl e else Inr (fst res)
      | None \<Rightarrow> Inr (fst res))"

definition lastOption :: "'a list \<Rightarrow> 'a option" where
  \<comment> \<open>\<open>order('created_at', {ascending: false}).limit(1)\<close>\<close>
  "lastOption xs = (if xs = [] then None else Some (last xs))"

section \<open>Worker: run processor (services/worker/src/run-processor)\<close>

definition fetchRun :: "worker_env \<Rightarrow> string \<Rightarrow> run_row option io" where
  "fetchRun env rid = (\<lambda>w. (checked (single (db_error env SelectRun) (runs w rid)), w))"

definition activeSessionRow :: "string \<Rightarrow> world \<Rightarrow> linked_session option" where
  "activeSessionRow uid w =
     lastOption (filter (\<lambda>s. session_user_id s = uid \<and> is_active s) (linked_sessions w))"

definition getActiveSession :: "worker_env \<Rightarrow> string \<Rightarrow> active_session option io" where
  "getActiveSession env uid =
     bindE (\<lambda>w. (checked (single (db_error env SelectActiveSession) (activeSessionRow uid w)), w))
       (\<lambda>data. case data of
          None \<Rightarrow> returnE None
        | Some row \<Rightarrow>
            bindE (liftE (decryptCookies env (encrypted_payload row)))
              (\<lambda>cs. returnE (Some \<lparr>cookies = cs, session_expiresAt = expires_at row\<rparr>)))"

definition latestLoginEvent :: "string \<Rightarrow> world \<Rightarrow> run_event option" where
  "latestLoginEvent rid w =
     lastOption (filter (\<lambda>e. event_run_id e = rid \<and> event_type e = ''needs_login'')
                   (run_events w))"

definition getLatestLoginEvent :: "worker_env \<Rightarrow> string \<Rightarrow> event_payload option io" where
  "getLatestLoginEvent env rid =
     bindE (\<lambda>w. (checked (single (db_error env SelectLoginEvent) (latestLoginEvent rid w)), w))
       (\<lambda>data. returnE (map_option payload data))"

text \<open>
  \<open>saveSession\<close>: the \<open>update({is_active: false})\<close> is awaited but its error is not
  read; a failed statement changes nothing.
\<close>

definition deactivateSessions :: "worker_env \<Rightarrow> string \<Rightarrow> unit io" where
  "deactivateSessions env uid =
     (case db_error env DeactivateSessions of
        Some e \<Rightarrow> returnE ()
      | None \<Rightarrow>
          modifyW (\<lambda>w. w\<lparr>linked_sessions :=
            map (\<lambda>s. if session_user_id s = uid then s\<lparr>is_active := False\<rparr> else s)
              (linked_sessions w)\<rparr>))"

definition saveSession :: "worker_env \<Rightarrow> string \<Rightarrow> cookie list \<Rightarrow> string option \<Rightarrow> unit io" where
  "saveSession env uid cs expires =
     bindE (deactivateSessions env uid)
       (\<lambda>u. bindE (throwIf (db_error env InsertSession))
          (\<lambda>u'. modifyW (\<lambda>w. w\<lparr>linked_sessions := linked_sessions w @
                  [\<lparr>session_user_id = uid, provider = ''browserless'',
                    encrypted_payload = encryptCookies env cs,
                    encryption_algorithm = ''aes-256-gcm'',
                    expires_at = expires, is_active = True\<rparr>]\<rparr>)))"

definition updateRow :: "string \<Rightarrow> (run_row \<Rightarrow> run_row) \<Rightarrow> world \<Rightarrow> world" where
  \<comment> \<open>\<open>update(...).eq('id', rid)\<close>\<close>
  "updateRow rid f w =
     (case runs w rid of None \<Rightarrow> w | Some r \<Rightarrow> w\<lparr>runs := (runs w)(rid \<mapsto> f r)\<rparr>)"

definition insertEvent :: "worker_env \<Rightarrow> run_event \<Rightarrow> unit io" where
  "insertEvent env ev =
     bindE (throwIf (db_error env (InsertEvent (event_type ev))))
       (\<lambda>u. modifyW (\<lambda>w. w\<lparr>run_events := run_events w @ [ev]\<rparr>))"

definition statusUpdates :: "worker_env \<Rightarrow> run_status \<Rightarrow> string option \<Rightarrow> run_row \<Rightarrow> run_row" where
  \<comment> \<open>the object \<open>updates\<close> of \<open>updateRunStatus\<close>\<close>
  "statusUpdates env st reason r =
     (let r1 = r\<lparr>status := st\<rparr>;
          r2 = (if st = Running then r1\<lparr>started_at := Some (now env)\<rparr> else r1);
          r3 = (if st = Completed then r2\<lparr>completed_at := Some (now env)\<rparr> else r2)
      in if st = Failed
         then r3\<lparr>failure_reason := Some (case reason of Some x \<Rightarrow> x | None \<Rightarrow> ''unknown'')\<rparr>
         else r3)"

definition updateRunStatus :: "worker_env \<Rightarrow> string \<Rightarrow> run_status \<Rightarrow> string option \<Rightarrow> unit io" where
  "updateRunStatus env rid st reason =
     bindE (throwIf (db_error env (UpdateRun st)))
       (\<lambda>u. bindE (modifyW (\<lambda>w. (updateRow rid (statusUpdates env st reason) w)
                                  \<lparr>runs_updates := runs_updates w @ [(rid, st)]\<rparr>))
          (\<lambda>u'. insertEvent env
                  \<lparr>event_run_id = rid, event_type = ''status_'' @ statusName st,
                   payload = StatusPayload reason\<rparr>))"

text \<open>
  \<open>incrementTokenUsage\<close> in its two statements: the \<open>select\<close> of the counter row of
  the month, and the \<open>upsert\<close> of the values computed from what was read.
\<close>

definition periodStart :: "worker_env \<Rightarrow> string" where
  "periodStart env = take 7 (now env) @ ''-01''"

definition readUsage :: "worker_env \<Rightarrow> string \<Rightarrow> usage_counter option io" where
  "readUsage env uid =
     (\<lambda>w. (checked (single (db_error env SelectUsage) (usage_counters w (uid, periodStart env))),
            w))"

definition writeUsage :: "worker_env \<Rightarrow> string \<Rightarrow> usage_counter option \<Rightarrow> int \<Rightarrow> unit io" where
  "writeUsage env uid data tokens =
     (let runsUsed = (case data of None \<Rightarrow> 0 | Some c \<Rightarrow> runs_used c);
          tokensUsed = (case data of None \<Rightarrow> 0 | Some c \<Rightarrow> tokens_used c)
      in bindE (throwIf (db_error env UpsertUsage))
           (\<lambda>u. modifyW (\<lambda>w. w\<lparr>usage_counters := (usage_counters w)
                   ((uid, periodStart env) \<mapsto>
                      \<lparr>runs_used = runsUsed, tokens_used = tokensUsed + tokens\<rparr>)\<rparr>)))"

definition incrementTokenUsage :: "worker_env \<Rightarrow> string \<Rightarrow> int \<Rightarrow> unit io" where
  "incrementTokenUsage env uid tokens =
     bindE (readUsage env uid) (\<lambda>data. writeUsage env uid data tokens)"

text \<open>\<open>ensureLoginSession\<close> (services/worker/src/browser-login.ts).\<close>

definition ensureLoginSession :: "worker_env \<Rightarrow> string \<Rightarrow> string \<Rightarrow> unit io" where
  "ensureLoginSession env rid uid =
     bindE (liftE (createSession env))
       (\<lambda>session.
          bindE (throwIf (db_error env (UpdateRun Needs_login)))
            (\<lambda>u. bindE (modifyW (\<lambda>w.
                     (updateRow rid (\<lambda>r. r\<lparr>status := Needs_login,
                                             needs_login_url := Some (connectUrl session)\<rparr>) w)
                     \<lparr>runs_updates := runs_updates w @ [(rid, Needs_login)]\<rparr>))
               (\<lambda>u'. insertEvent env
                       \<lparr>event_run_id = rid, event_type = ''needs_login'',
                        payload = LoginPayload session uid\<rparr>)))"

text \<open>\<open>storeArtifact\<close> (services/worker/src/storage.ts).\<close>

definition storeArtifact :: "worker_env \<Rightarrow> string \<Rightarrow> string \<Rightarrow> string \<Rightarrow> unit io" where
  "storeArtifact env rid artifactType body =
     (let path = rid @ ''/'' @ artifactType @ ''.md''
      in bindE (throwIf (db_error env (UploadObject artifactType)))
           (\<lambda>u. bindE (modifyW (\<lambda>w. w\<lparr>storage_objects := (storage_objects w)(path \<mapsto> body)\<rparr>))
              (\<lambda>u'. bindE (throwIf (db_error env (InsertArtifact artifactType)))
                 (\<lambda>u''. modifyW (\<lambda>w. w\<lparr>run_artifacts := run_artifacts w @
                          [\<lparr>artifact_run_id = rid, artifact_type = artifactType,
                            storage_path = path, content_sha256 = sha256_hex env body,
                            bytes = byteLength env body\<rparr>]\<rparr>)))))"

text \<open>\<open>buildKnowledgeBundle\<close> (services/worker/src/knowledge-bundler).\<close>

definition instructionLines :: "analysis_like \<Rightarrow> string" where
  "instructionLines aggregateAnalysis =
     (case like_actionableInstructions aggregateAnalysis of
        Some (item # items) \<Rightarrow> intercalate [CHR 0x0A] (map (\<lambda>i. ''- '' @ i) (item # items))
      | other \<Rightarrow>
          ''- Prioritize the highest confidence insights and adapt them to your outreach sequences.'')"

definition buildKnowledgeBundle ::
  "worker_env \<Rightarrow> analysis_like \<Rightarrow> (string \<times> analysis_like) list \<Rightarrow> string list \<Rightarrow> nat
     \<Rightarrow> knowledge_bundle io" where
  "buildKnowledgeBundle env aggregateAnalysis perExpertAnalysis topicList defaultPostLimit =
     (let instructions = intercalate [CHR 0x0A]
            [''# How to Use These Insights'', [], instructionLines aggregateAnalysis, [],
             ''Refer to the individual expert files for detailed tactics and source notes.'']
      in bindE (mapE (\<lambda>entry.
                  let postCount = (case like_posts (snd entry) of
                                     Some ps \<Rightarrow> length ps | None \<Rightarrow> defaultPostLimit)
                  in bindE (liftE (formatThreeFiles env (snd entry)
                              \<lparr>linkedinUsername = fst entry, focusTopics = topicList,
                               sc_postLimit = postCount, sc_outputFormat = ''instructions''\<rparr>))
                       (\<lambda>knowledgeBase. returnE
                          \<lparr>file_username = fst entry,
                           file_content = intercalate [CHR 0x0A]
                             [''# '' @ fst entry @ '' Knowledge Base'', [], knowledgeBase]\<rparr>))
                perExpertAnalysis)
           (\<lambda>files. returnE \<lparr>instructionsMarkdown = instructions, expertMarkdownFiles = files\<rparr>))"

text \<open>\<open>requeueQueue.add('run', data, {delay: config.requeueDelayMs})\<close>.\<close>

definition requeue :: "worker_env \<Rightarrow> run_job_data \<Rightarrow> unit io" where
  "requeue env jobData =
     modifyW (\<lambda>w. w\<lparr>requeueQueue := requeueQueue w @
        [\<lparr>job_name = ''run'', job_data = jobData, delay = requeueDelayMs env\<rparr>]\<rparr>)"

definition toFixed4 :: "real \<Rightarrow> real" where
  \<comment> \<open>\<open>Number(x.toFixed(4))\<close> on the reals\<close>
  "toFixed4 x = of_int \<lfloor>x * 10000 + 1 / 2\<rfloor> / 10000"

text \<open>
  The \<open>try\<close> block of \<open>processRunJob\<close> in parts: \<open>scraper.init()\<close> and the status
  \<open>running\<close>; the work from the scrape to the usage counter, which returns the tokens
  used and the scrape result; the two statements that record the completion, whose
  errors are not read.
\<close>

definition tokensOf :: "analysis_like \<Rightarrow> int" where
  \<comment> \<open>\<open>aggregateAnalysis.tokenUsage ?? 0\<close>\<close>
  "tokensOf a = (case tokenUsage a of None \<Rightarrow> 0 | Some t \<Rightarrow> t)"

definition collectAndStore ::
  "worker_env \<Rightarrow> string \<Rightarrow> run_row \<Rightarrow> active_session \<Rightarrow> (int \<times> scrape_result) io" where
  "collectAndStore env rid run session =
     bindE (liftE (scraper_scrapeProfiles env (profileUrls (config run)) (postLimit (config run))
                     (topics (config run))))
     (\<lambda>scrapeResult.
     bindE (throwIf (loadInsightAnalyzerCtor env))
     (\<lambda>u1.
     bindE (liftE (analyzeInsights env (allPosts scrapeResult)
                     \<lparr>linkedinUsername = [], focusTopics = topics (config run),
                      sc_postLimit = postLimit (config run),
                      sc_outputFormat = (if outputFormat (config run) = ''ai-ready''
                                         then ''instructions'' else ''markdown'')\<rparr>))
     (\<lambda>aggregateAnalysis.
     bindE (mapE (\<lambda>entry.
               bindE (liftE (analyzeInsights env (snd entry)
                               \<lparr>linkedinUsername = fst entry, focusTopics = topics (config run),
                                sc_postLimit = postLimit (config run),
                                sc_outputFormat = ''instructions''\<rparr>))
                 (\<lambda>a. returnE (fst entry, a)))
             (byExpert scrapeResult))
     (\<lambda>perExpertAnalysis.
     bindE (throwIf (loadFormatterInstance env))
     (\<lambda>u2.
     bindE (buildKnowledgeBundle env aggregateAnalysis perExpertAnalysis (topics (config run))
              (postLimit (config run)))
     (\<lambda>bundle.
     bindE (storeArtifact env rid ''instructions'' (instructionsMarkdown bundle))
     (\<lambda>u3.
     bindE (forEachE (\<lambda>expertFile. storeArtifact env rid (''expert-'' @ file_username expertFile)
                                      (file_content expertFile))
              (expertMarkdownFiles bundle))
     (\<lambda>u4.
     bindE (liftE (scraper_exportCookies env))
     (\<lambda>refreshedCookies.
     bindE (if refreshedCookies \<noteq> []
            then saveSession env (user_id run) refreshedCookies (session_expiresAt session)
            else returnE ())
     (\<lambda>u5.
     bindE (incrementTokenUsage env (user_id run) (tokensOf aggregateAnalysis))
     (\<lambda>u6. returnE (tokensOf aggregateAnalysis, scrapeResult))))))))))))"

definition recordCompleted :: "worker_env \<Rightarrow> string \<Rightarrow> int \<Rightarrow> scrape_result \<Rightarrow> unit io" where
  "recordCompleted env rid tokensUsed scrapeResult =
     bindE (case db_error env (UpdateRun Completed) of
              Some e \<Rightarrow> returnE ()
            | None \<Rightarrow>
                modifyW (\<lambda>w.
                  (updateRow rid (\<lambda>r. r\<lparr>status := Completed, completed_at := Some (now env),
                       token_estimate := tokensUsed,
                       cost_estimate := Some (toFixed4 (real_of_int tokensUsed / 1000000
                                                        * costPerMillionTokens env))\<rparr>) w)
                  \<lparr>runs_updates := runs_updates w @ [(rid, Completed)]\<rparr>))
       (\<lambda>u. case db_error env (InsertEvent ''completed'') of
               Some e \<Rightarrow> returnE ()
             | None \<Rightarrow>
                 modifyW (\<lambda>w. w\<lparr>run_events := run_events w @
                   [\<lparr>event_run_id = rid, event_type = ''completed'',
                     payload = CompletedPayload tokensUsed (length (byExpert scrapeResult))
                                 (length (allPosts scrapeResult))\<rparr>]\<rparr>))"

definition processing :: "worker_env \<Rightarrow> string \<Rightarrow> run_row \<Rightarrow> active_session \<Rightarrow> unit io" where
  "processing env rid run session =
     bindE (throwIf (scraper_init env (cookies session)))
       (\<lambda>u. bindE (updateRunStatus env rid Running None)
          (\<lambda>u'. bindE (collectAndStore env rid run session)
             (\<lambda>res. recordCompleted env rid (fst res) (snd res))))"

definition scraperClose :: "worker_env \<Rightarrow> unit io" where
  "scraperClose env =
     bindE (modifyW (\<lambda>w. w\<lparr>scraper_closes := scraper_closes w + 1\<rparr>))
       (\<lambda>u. throwIf (scraper_close env))"

definition failureReason :: "js_error \<Rightarrow> string" where
  \<comment> \<open>\<open>error?.message ?? 'unknown_error'\<close>\<close>
  "failureReason e = (case err_message e of Some m \<Rightarrow> m | None \<Rightarrow> ''unknown_error'')"

text \<open>The \<open>try\<close>, \<open>catch\<close> and \<open>finally\<close> once the session is resolved.\<close>

definition runWithSession :: "worker_env \<Rightarrow> string \<Rightarrow> run_row \<Rightarrow> active_session \<Rightarrow> unit io" where
  "runWithSession env rid run session =
     tryFinally
       (tryCatch (processing env rid run session)
          (\<lambda>e. bindE (updateRunStatus env rid Failed (Some (failureReason e))) (\<lambda>u. throwE e)))
       (scraperClose env)"

text \<open>
  The login branch. The \<open>try\<close> around the capture returns \<open>None\<close> where the source
  leaves \<open>processRunJob\<close> after putting the job back, and the session otherwise.
\<close>

definition captureSession ::
  "worker_env \<Rightarrow> run_job_data \<Rightarrow> run_row \<Rightarrow> event_payload \<Rightarrow> active_session option io" where
  "captureSession env jobData run pending =
     tryCatch
       (bindE (liftE (captureCookiesFromSession env pending))
          (\<lambda>cs. if cs = []
                 then bindE (requeue env jobData) (\<lambda>u. returnE None)
                 else bindE (saveSession env (user_id run) cs (payloadExpiresAt pending))
                        (\<lambda>u. returnE (Some \<lparr>cookies = cs,
                                              session_expiresAt = payloadExpiresAt pending\<rparr>))))
       (\<lambda>e. bindE (requeue env jobData) (\<lambda>u. returnE None))"

definition processRunJob :: "worker_env \<Rightarrow> run_job_data \<Rightarrow> unit io" where
  "processRunJob env jobData =
     bindE (fetchRun env (runId jobData))
       (\<lambda>found. case found of
          None \<Rightarrow> returnE ()
        | Some run \<Rightarrow>
            bindE (getActiveSession env (user_id run))
              (\<lambda>active. case active of
                 Some session \<Rightarrow> runWithSession env (runId jobData) run session
               | None \<Rightarrow>
                   bindE (getLatestLoginEvent env (runId jobData))
                     (\<lambda>latest. case latest of
                        None \<Rightarrow>
                          bindE (ensureLoginSession env (runId jobData) (user_id run))
                            (\<lambda>u. requeue env jobData)
                      | Some pending \<Rightarrow>
                          bindE (captureSession env jobData run pending)
                            (\<lambda>resolved. case resolved of
                               None \<Rightarrow> returnE ()
                             | Some session \<Rightarrow>
                                 runWithSession env (runId jobData) run session))))"


section \<open>Worker: what a step leaves unchanged\<close>

text \<open>
  \<open>keeps m\<close>: the step \<open>m\<close> changes neither the runs, their events and recorded status
  updates, the queue nor the count of \<open>close()\<close> calls, whatever it returns or throws.
\<close>

definition sameRunState :: "world \<Rightarrow> world \<Rightarrow> bool" where
  "sameRunState w w' \<longleftrightarrow>
     runs w' = runs w \<and> run_events w' = run_events w \<and> runs_updates w' = runs_updates w
     \<and> requeueQueue w' = requeueQueue w \<and> scraper_closes w' = scraper_closes w"

definition keeps :: "'a io \<Rightarrow> bool" where
  "keeps m \<longleftrightarrow> (\<forall>w. sameRunState w (snd (m w)))"

definition statusEvent :: "string \<Rightarrow> run_status \<Rightarrow> string option \<Rightarrow> run_event" where
  \<comment> \<open>the event row that \<open>updateRunStatus\<close> inserts\<close>
  "statusEvent rid st reason =
     \<lparr>event_run_id = rid, event_type = ''status_'' @ statusName st, payload = StatusPayload reason\<rparr>"


section \<open>Keyword fallback (src/analyzer.ts)\<close>

definition calculateConfidence :: "linkedin_post \<Rightarrow> nat \<Rightarrow> real" where
  "calculateConfidence post keywordMatches =
     (let confidence0 = min (real keywordMatches * 0.2) 0.8;
          totalEngagement = likes (engagement post) + comments (engagement post)
                            + shares (engagement post);
          confidence1 = (if totalEngagement > 100 then confidence0 + 0.1 else confidence0);
          confidence2 = (if totalEngagement > 500 then confidence1 + 0.1 else confidence1)
      in min (max confidence2 0.1) 1.0)"

section \<open>AI analysis (src/claude-service.ts)\<close>

text \<open>
  The language model and the image download are collaborators. A request carries the
  model, the prompt and the images; the answer is a thrown error or the content blocks
  of the response. The two prompt templates and the JSON reading of a response text
  (\<open>extractJsonString\<close>, \<open>JSON.parse\<close>, \<open>jsonrepair\<close>) are functions of the
  environment; a parsed response has the shape of the schema in the prompt, each field
  possibly absent.
\<close>

datatype content_block = TextBlock string | OtherBlock

record image_block =
  media_type :: string
  image_data :: string

record llm_request =
  model :: string
  max_tokens :: nat
  prompt_text :: string
  images :: "image_block list"

record raw_insight =
  raw_category :: "string option"
  raw_text :: string
  raw_confidence :: "real option"

record parsed_analysis =
  parsed_insights :: "raw_insight list option"
  parsed_templates :: "string list option"
  parsed_actionableItems :: "string list option"
  parsed_methodologies :: "methodology list option"

record post_analysis =
  found_insights :: "sales_insight list"
  found_templates :: "string list"
  found_actionableItems :: "string list"
  found_methodologies :: "methodology list"

record claude_env =
  messages_create :: "llm_request \<Rightarrow> js_error + content_block list"
  downloadImageAsBase64 :: "string \<Rightarrow> image_block option"
  buildAnalysisPrompt :: "linkedin_post \<Rightarrow> string list option \<Rightarrow> string"
  buildRelevancePrompt :: "linkedin_post \<Rightarrow> string list option \<Rightarrow> string"
  parseAnalysisJson :: "string \<Rightarrow> parsed_analysis option"
  parseRelevanceJson :: "string \<Rightarrow> real option option"
  timestamp :: string

definition emptyAnalysis :: post_analysis where
  "emptyAnalysis =
     \<lparr>found_insights = [], found_templates = [], found_actionableItems = [],
      found_methodologies = []\<rparr>"

definition orEmpty :: "'a list option \<Rightarrow> 'a list" where
  \<comment> \<open>\<open>xs || []\<close>\<close>
  "orEmpty xs = (case xs of None \<Rightarrow> [] | Some ys \<Rightarrow> ys)"

definition mapCategory :: "string option \<Rightarrow> SalesCategory" where
  "mapCategory c =
     (if c = Some ''PROSPECTING'' then PROSPECTING
      else if c = Some ''DISCOVERY'' then DISCOVERY
      else if c = Some ''NURTURE'' then NURTURE
      else if c = Some ''CLOSING'' then CLOSING
      else if c = Some ''SALES_COMMS'' then SALES_COMMS
      else if c = Some ''CADENCES'' then CADENCES
      else if c = Some ''STRATEGY'' then STRATEGY
      else if c = Some ''TEMPLATES'' then TEMPLATES
      else TACTICS)"

definition orHalf :: "real option \<Rightarrow> real" where
  \<comment> \<open>\<open>insight.confidence || 0.5\<close>: an absent or zero confidence is falsy\<close>
  "orHalf c = (case c of None \<Rightarrow> 0.5 | Some x \<Rightarrow> if x = 0 then 0.5 else x)"

definition scorePostRelevance :: "claude_env \<Rightarrow> linkedin_post \<Rightarrow> string list option \<Rightarrow> real" where
  "scorePostRelevance env post topicList =
     (case messages_create env
             \<lparr>model = ''claude-3-haiku-20240307'', max_tokens = 100,
              prompt_text = buildRelevancePrompt env post topicList, images = []\<rparr> of
        Inl e \<Rightarrow> 0.5
      | Inr [] \<Rightarrow> 0.5
      | Inr (TextBlock t # rest) \<Rightarrow>
          (case parseRelevanceJson env t of
             Some (Some relevance) \<Rightarrow> max 0 (min 1 relevance)
           | other \<Rightarrow> 0)
      | Inr (OtherBlock # rest) \<Rightarrow> 0)"

definition parseAnalysisResponse :: "claude_env \<Rightarrow> string \<Rightarrow> linkedin_post \<Rightarrow> post_analysis" where
  "parseAnalysisResponse env response post =
     (case parseAnalysisJson env response of
        None \<Rightarrow> emptyAnalysis
      | Some parsed \<Rightarrow>
          \<lparr>found_insights =
             map (\<lambda>entry.
                    \<lparr>insight_id = post_id post @ ''-ai-'' @ showNat (fst entry),
                     category = mapCategory (raw_category (snd entry)),
                     insight = raw_text (snd entry),
                     sourcePost = post,
                     confidence = orHalf (raw_confidence (snd entry)),
                     extractedAt = timestamp env,
                     actionableItems = orEmpty (parsed_actionableItems parsed),
                     insight_templates = orEmpty (parsed_templates parsed)\<rparr>)
               (enumerate 0 (orEmpty (parsed_insights parsed))),
           found_templates = orEmpty (parsed_templates parsed),
           found_actionableItems = orEmpty (parsed_actionableItems parsed),
           found_methodologies = orEmpty (parsed_methodologies parsed)\<rparr>)"

definition downloadImages :: "claude_env \<Rightarrow> linkedin_post \<Rightarrow> image_block list" where
  \<comment> \<open>the array \<open>imageContent\<close>: the downloads that succeed among the first five URLs\<close>
  "downloadImages env post =
     (case imageUrls post of
        None \<Rightarrow> []
      | Some urls \<Rightarrow> List.map_filter (downloadImageAsBase64 env) (take 5 urls))"

definition analysisRequest :: "claude_env \<Rightarrow> linkedin_post \<Rightarrow> string list option \<Rightarrow> llm_request" where
  "analysisRequest env post topicList =
     \<lparr>model = ''claude-sonnet-4-5'', max_tokens = 2000,
      prompt_text = buildAnalysisPrompt env post topicList, images = downloadImages env post\<rparr>"

text \<open>
  The request inside the \<open>try\<close> of \<open>analyzePost\<close>: it throws what the client throws,
  a \<open>TypeError\<close> on a response without content, and an error on a first block that is
  not text.
\<close>

definition extractionAttempt ::
  "claude_env \<Rightarrow> llm_request \<Rightarrow> linkedin_post \<Rightarrow> js_error + post_analysis" where
  "extractionAttempt env request post =
     (case messages_create env request of
        Inl e \<Rightarrow> Inl e
      | Inr [] \<Rightarrow> Inl (JsError None (Some ''Cannot read properties of undefined''))
      | Inr (TextBlock t # rest) \<Rightarrow> Inr (parseAnalysisResponse env t post)
      | Inr (OtherBlock # rest) \<Rightarrow> Inl (JsError None (Some ''Unexpected response type from Claude'')))"

text \<open>
  The request of the \<open>catch\<close> block, in a \<open>try\<close> of its own: every failure and every
  first block that is not text falls through to the empty result.
\<close>

definition retryAttempt :: "claude_env \<Rightarrow> llm_request \<Rightarrow> linkedin_post \<Rightarrow> post_analysis option" where
  "retryAttempt env request post =
     (case messages_create env request of
        Inl retryError \<Rightarrow> None
      | Inr [] \<Rightarrow> None
      | Inr (TextBlock t # rest) \<Rightarrow> Some (parseAnalysisResponse env t post)
      | Inr (OtherBlock # rest) \<Rightarrow> None)"

definition messageIncludes :: "js_error \<Rightarrow> string \<Rightarrow> bool" where
  \<comment> \<open>\<open>error.message && error.message.includes(sub)\<close>\<close>
  "messageIncludes e sub =
     (case err_message e of None \<Rightarrow> False | Some m \<Rightarrow> m \<noteq> [] \<and> includesStr m sub)"

text \<open>\<open>analyzePost\<close> returns its result and the requests it sent, in order.\<close>

definition analyzePost ::
  "claude_env \<Rightarrow> linkedin_post \<Rightarrow> string list option
     \<Rightarrow> (js_error + post_analysis) \<times> llm_request list" where
  "analyzePost env post topicList =
     (let request = analysisRequest env post topicList
      in case extractionAttempt env request post of
           Inr result \<Rightarrow> (Inr result, [request])
         | Inl error \<Rightarrow>
             if images request \<noteq> [] \<and> messageIncludes error ''image''
             then (case retryAttempt env (request\<lparr>images := []\<rparr>) post of
                     Some result \<Rightarrow> (Inr result, [request, request\<lparr>images := []\<rparr>])
                   | None \<Rightarrow> (Inr emptyAnalysis, [request, request\<lparr>images := []\<rparr>]))
             else (Inr emptyAnalysis, [request]))"

text \<open>The three deduplicators of the service keep the first element for each key.\<close>

fun filterUnseen :: "('a \<Rightarrow> 'k) \<Rightarrow> 'k set \<Rightarrow> 'a list \<Rightarrow> 'a list" where
  "filterUnseen key seen [] = []"
| "filterUnseen key seen (x # xs) =
     (if key x \<in> seen then filterUnseen key seen xs
      else x # filterUnseen key (insert (key x) seen) xs)"

definition ClaudeService_deduplicateInsights :: "sales_insight list \<Rightarrow> sales_insight list" where
  "ClaudeService_deduplicateInsights xs =
     filterUnseen (\<lambda>i. categoryValue (category i) @ ''-'' @ take 50 (insight i)) {} xs"

definition deduplicateStrings :: "string list \<Rightarrow> string list" where
  "deduplicateStrings items =
     filterUnseen (\<lambda>s. s) {} (filter (\<lambda>item. item \<noteq> [] \<and> trim item \<noteq> []) items)"

definition deduplicateMethodologies :: "methodology list \<Rightarrow> methodology list" where
  "deduplicateMethodologies ms = filterUnseen name {} ms"

fun firstRejection :: "(js_error + 'a) list \<Rightarrow> js_error option" where
  \<comment> \<open>\<open>Promise.all\<close> rejects when one of the promises does\<close>
  "firstRejection [] = None"
| "firstRejection (Inl e # rs) = Some e"
| "firstRejection (Inr x # rs) = firstRejection rs"

fun fulfilled :: "(js_error + 'a) list \<Rightarrow> 'a list" where
  "fulfilled [] = []"
| "fulfilled (Inl e # rs) = fulfilled rs"
| "fulfilled (Inr x # rs) = x # fulfilled rs"

definition appendAnalyses :: "post_analysis \<Rightarrow> post_analysis list \<Rightarrow> post_analysis" where
  \<comment> \<open>the four \<open>push(...result)\<close> of the second pass\<close>
  "appendAnalyses acc results =
     \<lparr>found_insights = found_insights acc @ concat (map found_insights results),
      found_templates = found_templates acc @ concat (map found_templates results),
      found_actionableItems = found_actionableItems acc @ concat (map found_actionableItems results),
      found_methodologies = found_methodologies acc @ concat (map found_methodologies results)\<rparr>"

text \<open>
  The two loops of \<open>batchAnalyzePosts\<close> advance \<open>i\<close> by \<open>batchSize\<close>; with a batch size
  of zero they do not end, which is the value \<open>None\<close>. The waits between batches have
  no effect on the result.
\<close>

partial_function (option) scoreBatches ::
  "claude_env \<Rightarrow> string list option \<Rightarrow> nat \<Rightarrow> linkedin_post list \<Rightarrow> nat
     \<Rightarrow> (linkedin_post \<times> real) list \<Rightarrow> (linkedin_post \<times> real) list option" where
  "scoreBatches env topicList batchSize ps i relevanceScores =
     (if i < length ps
      then scoreBatches env topicList batchSize ps (i + batchSize)
             (relevanceScores @
                map (\<lambda>post. (post, scorePostRelevance env post topicList))
                  (take batchSize (drop i ps)))
      else Some relevanceScores)"

partial_function (option) extractBatches ::
  "claude_env \<Rightarrow> string list option \<Rightarrow> nat \<Rightarrow> linkedin_post list \<Rightarrow> nat
     \<Rightarrow> post_analysis \<Rightarrow> llm_request list
     \<Rightarrow> ((js_error + post_analysis) \<times> llm_request list) option" where
  "extractBatches env topicList batchSize relevantPosts i acc sent =
     (if i < length relevantPosts
      then (case firstRejection
                   (map (\<lambda>post. fst (analyzePost env post topicList))
                      (take batchSize (drop i relevantPosts))) of
              Some e \<Rightarrow>
                Some (Inl e,
                      sent @ concat (map (\<lambda>post. snd (analyzePost env post topicList))
                                      (take batchSize (drop i relevantPosts))))
            | None \<Rightarrow>
                extractBatches env topicList batchSize relevantPosts (i + batchSize)
                  (appendAnalyses acc
                     (fulfilled (map (\<lambda>post. fst (analyzePost env post topicList))
                                   (take batchSize (drop i relevantPosts)))))
                  (sent @ concat (map (\<lambda>post. snd (analyzePost env post topicList))
                                    (take batchSize (drop i relevantPosts)))))
      else Some (Inr acc, sent))"

text \<open>
  \<open>batchAnalyzePosts\<close> returns its result and the requests of the extraction pass.
\<close>

definition batchAnalyzePosts ::
  "claude_env \<Rightarrow> linkedin_post list \<Rightarrow> nat \<Rightarrow> string list option
     \<Rightarrow> ((js_error + post_analysis) \<times> llm_request list) option" where
  "batchAnalyzePosts env ps batchSize topicList =
     (case scoreBatches env topicList batchSize ps 0 [] of
        None \<Rightarrow> None
      | Some relevanceScores \<Rightarrow>
          (let relevantPosts = map fst (filter (\<lambda>scored. snd scored > 0.6) relevanceScores)
           in if length relevantPosts = 0 then Some (Inr emptyAnalysis, [])
              else (case extractBatches env topicList batchSize relevantPosts 0 emptyAnalysis [] of
                      None \<Rightarrow> None
                    | Some (Inl e, sent) \<Rightarrow> Some (Inl e, sent)
                    | Some (Inr found, sent) \<Rightarrow>
                        Some (Inr \<lparr>found_insights =
                                     ClaudeService_deduplicateInsights (found_insights found),
                                   found_templates = deduplicateStrings (found_templates found),
                                   found_actionableItems =
                                     deduplicateStrings (found_actionableItems found),
                                   found_methodologies =
                                     deduplicateMethodologies (found_methodologies found)\<rparr>,
                              sent))))"

section \<open>Example inputs\<close>

definition examplePost :: linkedin_post where
  "examplePost =
     \<lparr>post_id = ''p1'', content = ''Lead with value'', publishedAt = ''2025-01-01'',
      engagement = \<lparr>likes = 120, comments = 4, shares = 1\<rparr>, url = ''u'', author = ''a'',
      contentType = None, links = None, imageUrls = None\<rparr>"

definition exampleInsight :: "string \<Rightarrow> string \<Rightarrow> real \<Rightarrow> sales_insight" where
  "exampleInsight i txt c =
     \<lparr>insight_id = i, category = TACTICS, insight = txt, sourcePost = examplePost,
      confidence = c, extractedAt = ''t'', actionableItems = [], insight_templates = []\<rparr>"

definition exampleExpert ::
  "string \<Rightarrow> sales_insight list \<Rightarrow> methodology list option \<Rightarrow> expert_analysis" where
  "exampleExpert u is ms =
     \<lparr>expert = \<lparr>username = u, weight = None, expert_postLimit = None\<rparr>,
      analysis = \<lparr>posts = [], insights = is, summary = [], actionableInstructions = [],
                  templates = [], methodologies = ms\<rparr>\<rparr>"

definition exampleExperts :: "expert_analysis list" where
  "exampleExperts =
     [exampleExpert ''A''
        [exampleInsight ''1'' ''Lead with value'' 0.6, exampleInsight ''2'' ''Ask why'' 0.9]
        (Some [\<lparr>name = ''SMYKM'', description = ''Show me you know me'', application = None\<rparr>]),
      exampleExpert ''B''
        [exampleInsight ''3'' '' LEAD with Value '' 0.7, exampleInsight ''4'' ''Follow up'' 0.9]
        (Some [\<lparr>name = ''smykm'', description = ''Research first'', application = Some ''email''\<rparr>,
               \<lparr>name = ''Smykm'', description = ''Again'', application = None\<rparr>])]"


definition exampleEnv :: worker_env where
  \<comment> \<open>every statement of the store succeeds, the login is not finished, the scrape throws\<close>
  "exampleEnv =
     \<lparr>db_error = (\<lambda>c. None), requeueDelayMs = 5000, costPerMillionTokens = 15,
      now = ''2025-03-14T10:00:00.000Z'',
      createSession = Inr \<lparr>sessionId = ''s1'', connectUrl = ''https://b/connect'',
                            wsEndpoint = ''wss://b'', expiresAt = None\<rparr>,
      captureCookiesFromSession = (\<lambda>p. Inr []),
      encryptCookies = (\<lambda>cs. ''enc''),
      decryptCookies = (\<lambda>s. Inr [''li_at'']),
      scraper_init = (\<lambda>cs. None),
      scraper_scrapeProfiles = (\<lambda>urls n ts. Inl (JsError None (Some ''LinkedIn session invalid''))),
      scraper_exportCookies = Inr [],
      scraper_close = None,
      loadInsightAnalyzerCtor = None,
      analyzeInsights = (\<lambda>ps c. Inr \<lparr>like_actionableInstructions = None, like_posts = None,
                                       tokenUsage = Some 0\<rparr>),
      loadFormatterInstance = None,
      formatThreeFiles = (\<lambda>a c. Inr ''# Knowledge''),
      sha256_hex = (\<lambda>s. ''h''),
      byteLength = length\<rparr>"

definition exampleRun :: "run_status \<Rightarrow> run_row" where
  "exampleRun st =
     \<lparr>user_id = ''user'', status = st,
      config = \<lparr>profileUrls = [''https://www.linkedin.com/in/test/''], topics = [],
                outputFormat = ''ai-ready'', postLimit = 50\<rparr>,
      needs_login_url = None, failure_reason = None, token_estimate = 0, cost_estimate = None,
      started_at = None, completed_at = None\<rparr>"

definition exampleJob :: run_job_data where
  "exampleJob = \<lparr>runId = ''run'', userId = ''user''\<rparr>"

definition exampleLoginEvent :: run_event where
  "exampleLoginEvent =
     \<lparr>event_run_id = ''run'', event_type = ''needs_login'',
      payload = LoginPayload \<lparr>sessionId = ''s1'', connectUrl = ''https://b/connect'',
                              wsEndpoint = ''wss://b'', expiresAt = None\<rparr> ''user''\<rparr>"

definition waitingWorld :: world where
  \<comment> \<open>a run that waits for the login: no session, one login request\<close>
  "waitingWorld =
     \<lparr>runs = [''run'' \<mapsto> exampleRun Needs_login], run_events = [exampleLoginEvent],
      linked_sessions = [], usage_counters = Map.empty, run_artifacts = [],
      storage_objects = Map.empty, requeueQueue = [], runs_updates = [], scraper_closes = 0\<rparr>"

definition exampleSession :: active_session where
  "exampleSession = \<lparr>cookies = [''li_at''], session_expiresAt = None\<rparr>"

definition sessionWorld :: "run_status \<Rightarrow> world" where
  \<comment> \<open>a run with the given stored status, of a user with an active session\<close>
  "sessionWorld st =
     \<lparr>runs = [''run'' \<mapsto> exampleRun st], run_events = [],
      linked_sessions = [\<lparr>session_user_id = ''user'', provider = ''browserless'',
                           encrypted_payload = ''enc'', encryption_algorithm = ''aes-256-gcm'',
                           expires_at = None, is_active = True\<rparr>],
      usage_counters = [(''user'', ''2025-03-01'') \<mapsto> \<lparr>runs_used = 1, tokens_used = 100\<rparr>],
      run_artifacts = [], storage_objects = Map.empty, requeueQueue = [], runs_updates = [],
      scraper_closes = 0\<rparr>"

definition workingEnv :: worker_env where
  \<comment> \<open>as \<open>exampleEnv\<close>, with a scrape that returns one post of one expert\<close>
  "workingEnv =
     exampleEnv\<lparr>scraper_scrapeProfiles :=
        (\<lambda>urls n ts. Inr \<lparr>allPosts = [examplePost], byExpert = [(''test'', [examplePost])]\<rparr>)\<rparr>"

text \<open>
  Two calls of \<open>incrementTokenUsage\<close> for one user by two workers, their statements
  interleaved: both read, then both write.
\<close>

definition interleavedIncrements :: "worker_env \<Rightarrow> string \<Rightarrow> int \<Rightarrow> int \<Rightarrow> unit io" where
  "interleavedIncrements env uid tokensA tokensB =
     bindE (readUsage env uid)
       (\<lambda>dataA. bindE (readUsage env uid)
          (\<lambda>dataB. bindE (writeUsage env uid dataA tokensA)
             (\<lambda>u. writeUsage env uid dataB tokensB)))"

definition tokensUsedOf :: "world \<Rightarrow> string \<times> string \<Rightarrow> int" where
  \<comment> \<open>\<open>data?.tokens_used ?? 0\<close>\<close>
  "tokensUsedOf w key = (case usage_counters w key of None \<Rightarrow> 0 | Some c \<Rightarrow> tokens_used c)"


definition exampleClaude :: claude_env where
  \<comment> \<open>scores every post 0.3, rejects requests that carry images, reports a confidence 1.5\<close>
  "exampleClaude =
     \<lparr>messages_create =
        (\<lambda>req. if model req = ''claude-3-haiku-20240307'' then Inr [TextBlock ''relevance 0.3'']
               else if images req \<noteq> [] then Inl (JsError None (Some ''Could not process image''))
               else Inr [TextBlock ''analysis'']),
      downloadImageAsBase64 = (\<lambda>u. Some \<lparr>media_type = ''image/png'', image_data = ''AAAA''\<rparr>),
      buildAnalysisPrompt = (\<lambda>post ts. ''Analyze: '' @ content post),
      buildRelevancePrompt = (\<lambda>post ts. ''Score: '' @ take 1000 (content post)),
      parseAnalysisJson =
        (\<lambda>t. Some \<lparr>parsed_insights =
                       Some [\<lparr>raw_category = Some ''CLOSING'', raw_text = ''Ask for the order'',
                              raw_confidence = Some 1.5\<rparr>],
                     parsed_templates = None, parsed_actionableItems = None,
                     parsed_methodologies = None\<rparr>),
      parseRelevanceJson = (\<lambda>t. Some (Some 0.3)),
      timestamp = ''2025-03-14T10:00:00.000Z''\<rparr>"

definition rateLimitedClaude :: claude_env where
  "rateLimitedClaude =
     exampleClaude\<lparr>messages_create := (\<lambda>req. Inl (JsError None (Some ''rate limit exceeded'')))\<rparr>"

definition imagePost :: linkedin_post where
  "imagePost = examplePost\<lparr>imageUrls := Some [''https://i/1.png'']\<rparr>"


section \<open>Properties of the token utilities\<close>

lemma concat_splitSectionsFrom: "concat (splitSectionsFrom prev cur rest) = cur @ rest"
  by (induction rest arbitrary: prev cur) simp_all

lemma concat_packSections:
  "concat (packSections maxTokens sections cur toks chunks) = concat chunks @ cur @ concat sections"
  by (induction sections arbitrary: cur toks chunks) (simp_all add: Let_def)

text \<open>
  C9. For every text and every positive limit, the chunks returned by
  \<open>splitByTokens\<close> concatenate to the text, and a text whose estimate is within the
  limit comes back as the single chunk.
\<close>

theorem splitByTokens_roundtrip:
  "0 < maxTokens \<Longrightarrow>
     concat (splitByTokens text maxTokens) = text
     \<and> (int (estimateTokens text) \<le> maxTokens \<longrightarrow> splitByTokens text maxTokens = [text])"
  by (simp add: splitByTokens_def splitSections_def concat_packSections concat_splitSectionsFrom)

lemma char_of_nat_eval:
  "char_of (n::nat) =
     Char (odd n) (odd (n div 2)) (odd (n div 4)) (odd (n div 8)) (odd (n div 16))
       (odd (n div 32)) (odd (n div 64)) (odd (n div 128))"
  by (simp add: char_of_def bit_iff_odd_drop_bit drop_bit_eq_div)

theorem splitByTokens_roundtrip_witness:
  "(0::int) < 2
   \<and> concat (splitByTokens ''## a\<newline>bb\<newline>## c\<newline>dd\<newline>'' 2) = ''## a\<newline>bb\<newline>## c\<newline>dd\<newline>''
   \<and> splitByTokens ''## a\<newline>bb\<newline>## c\<newline>dd\<newline>'' 2 = [''## a\<newline>bb\<newline>'', ''## c\<newline>dd\<newline>'']
   \<and> int (estimateTokens ''## a\<newline>bb\<newline>## c\<newline>dd\<newline>'') \<le> 5
   \<and> splitByTokens ''## a\<newline>bb\<newline>## c\<newline>dd\<newline>'' 5 = [''## a\<newline>bb\<newline>## c\<newline>dd\<newline>'']"
  using splitByTokens_roundtrip [of 2 "''## a\<newline>bb\<newline>## c\<newline>dd\<newline>''"]
    splitByTokens_roundtrip [of 5 "''## a\<newline>bb\<newline>## c\<newline>dd\<newline>''"]
  by (simp add: splitByTokens_def splitSections_def estimateTokens_def isWhiteSpace_def
        isLineTerminator_def)

section \<open>Properties of the aggregation\<close>

lemma keepFirstByKey_subset: "set (keepFirstByKey key xs) \<subseteq> set xs"
  by (induction key xs rule: keepFirstByKey.induct) auto

lemma keepFirstByKey_keys: "key ` set (keepFirstByKey key xs) = key ` set xs"
  by (induction key xs rule: keepFirstByKey.induct) force+

lemma keepFirstByKey_distinct: "distinct (map key (keepFirstByKey key xs))"
proof (induction key xs rule: keepFirstByKey.induct)
  case (1 key)
  then show ?case by simp
next
  case (2 key x xs)
  have "key x \<notin> key ` set (keepFirstByKey key (filter (\<lambda>y. key y \<noteq> key x) xs))"
    using keepFirstByKey_subset [of key "filter (\<lambda>y. key y \<noteq> key x) xs"] by auto
  with 2 show ?case by simp
qed

lemma find_filter_other:
  "key x \<noteq> key z \<Longrightarrow>
   find (\<lambda>y. key y = key x) (filter (\<lambda>y. key y \<noteq> key z) xs) = find (\<lambda>y. key y = key x) xs"
  by (induction xs) auto

lemma keepFirstByKey_find:
  "x \<in> set (keepFirstByKey key xs) \<Longrightarrow> find (\<lambda>y. key y = key x) xs = Some x"
proof (induction key xs rule: keepFirstByKey.induct)
  case (1 key)
  then show ?case by simp
next
  case (2 key z xs)
  show ?case
  proof (cases "x = z")
    case True
    then show ?thesis by simp
  next
    case False
    with 2 have m: "x \<in> set (keepFirstByKey key (filter (\<lambda>y. key y \<noteq> key z) xs))" by simp
    then have "x \<in> set (filter (\<lambda>y. key y \<noteq> key z) xs)"
      using keepFirstByKey_subset by fastforce
    then have ne: "key x \<noteq> key z" by simp
    have "find (\<lambda>y. key y = key x) (filter (\<lambda>y. key y \<noteq> key z) xs) = Some x"
      using "2.IH" m by simp
    then show ?thesis using ne by (simp add: find_filter_other)
  qed
qed

lemma keepFirstByKey_snoc:
  "keepFirstByKey key (xs @ [x]) =
     (if key x \<in> key ` set xs then keepFirstByKey key xs else keepFirstByKey key xs @ [x])"
proof (induction key xs rule: keepFirstByKey.induct)
  case (1 key)
  then show ?case by simp
next
  case (2 key y ys)
  show ?case
  proof (cases "key x = key y")
    case True
    then show ?thesis by simp
  next
    case False
    then have "key x \<in> key ` set (filter (\<lambda>z. key z \<noteq> key y) ys) \<longleftrightarrow> key x \<in> key ` set ys"
      by auto
    with False 2 show ?thesis by simp
  qed
qed

lemma fold_insightStep:
  "fold (\<lambda>ins st'. insightStep st' ins) xs (seen, acc) =
     (seen \<union> insightKey ` set xs,
      acc @ keepFirstByKey insightKey (filter (\<lambda>x. insightKey x \<notin> seen) xs))"
proof (induction xs arbitrary: seen acc)
  case Nil
  then show ?case by simp
next
  case (Cons x xs)
  have f: "filter (\<lambda>y. insightKey y \<noteq> insightKey x) (filter (\<lambda>y. insightKey y \<notin> seen) xs)
         = filter (\<lambda>y. insightKey y \<notin> insert (insightKey x) seen) xs"
    by (simp add: conj_commute)
  show ?case
  proof (cases "insightKey x \<in> seen")
    case True
    then show ?thesis
      using Cons.IH [of seen acc] by (auto simp add: insightStep_def insightKey_def [symmetric])
  next
    case False
    then show ?thesis
      using Cons.IH [of "insert (insightKey x) seen" "acc @ [x]"] f
      by (simp add: insightStep_def insightKey_def [symmetric])
  qed
qed

lemma fold_experts_insights:
  "fold (\<lambda>e st. fold (\<lambda>ins st'. insightStep st' ins) (insights (analysis e)) st) es st0
     = fold (\<lambda>ins st'. insightStep st' ins) (allExpertInsights es) st0"
  by (induction es arbitrary: st0) (simp_all add: allExpertInsights_def)

lemma deduplicateInsights_refines:
  "AggregationFormatter_deduplicateInsights es = mergedInsights_spec es"
  by (simp add: AggregationFormatter_deduplicateInsights_def mergedInsights_spec_def
        fold_experts_insights fold_insightStep)

text \<open>
  C7. The aggregated insight list is the concatenation of the experts' insights with
  the first occurrence kept for each lowercased and trimmed text, stably sorted by
  descending confidence: it equals the specification's merge, it is sorted, its keys
  are distinct and are all the keys of the input, and each element is the first of the
  concatenation with its key.
\<close>

theorem aggregated_insights_merge:
  "AggregationFormatter_deduplicateInsights es = mergedInsights_spec es
   \<and> sorted_wrt (\<lambda>a b. confidence a \<ge> confidence b) (AggregationFormatter_deduplicateInsights es)
   \<and> distinct (map insightKey (AggregationFormatter_deduplicateInsights es))
   \<and> insightKey ` set (AggregationFormatter_deduplicateInsights es)
       = insightKey ` set (allExpertInsights es)
   \<and> (\<forall>x \<in> set (AggregationFormatter_deduplicateInsights es).
        find (\<lambda>y. insightKey y = insightKey x) (allExpertInsights es) = Some x)"
proof -
  let ?kept = "keepFirstByKey insightKey (allExpertInsights es)"
  have "sorted (map (\<lambda>i. - confidence i) (mergedInsights_spec es))"
    by (simp add: mergedInsights_spec_def)
  then have srt: "sorted_wrt (\<lambda>a b. confidence a \<ge> confidence b) (mergedInsights_spec es)"
    by (simp add: sorted_wrt_map)
  have "distinct ?kept \<and> inj_on insightKey (set ?kept)"
    using keepFirstByKey_distinct [of insightKey "allExpertInsights es"]
    by (simp add: distinct_map)
  then have d: "distinct (map insightKey (mergedInsights_spec es))"
    by (simp add: mergedInsights_spec_def distinct_map)
  have ks: "insightKey ` set (mergedInsights_spec es) = insightKey ` set (allExpertInsights es)"
    by (simp add: mergedInsights_spec_def keepFirstByKey_keys)
  have fnd: "\<forall>x \<in> set (mergedInsights_spec es).
        find (\<lambda>y. insightKey y = insightKey x) (allExpertInsights es) = Some x"
    by (simp add: mergedInsights_spec_def keepFirstByKey_find)
  show ?thesis using srt d ks fnd by (simp add: deduplicateInsights_refines)
qed

theorem aggregated_insights_merge_witness:
  "AggregationFormatter_deduplicateInsights exampleExperts =
     [exampleInsight ''2'' ''Ask why'' 0.9, exampleInsight ''4'' ''Follow up'' 0.9,
      exampleInsight ''1'' ''Lead with value'' 0.6]
   \<and> find (\<lambda>y. insightKey y = insightKey (exampleInsight ''1'' ''Lead with value'' 0.6))
        (allExpertInsights exampleExperts) = Some (exampleInsight ''1'' ''Lead with value'' 0.6)"
proof -
  have r: "AggregationFormatter_deduplicateInsights exampleExperts =
     [exampleInsight ''2'' ''Ask why'' 0.9, exampleInsight ''4'' ''Follow up'' 0.9,
      exampleInsight ''1'' ''Lead with value'' 0.6]"
    by (simp add: AggregationFormatter_deduplicateInsights_def exampleExperts_def
          exampleExpert_def insightStep_def exampleInsight_def toLowerCase_def lowerChar_def
          trim_def isWhiteSpace_def char_of_nat_eval)
  show ?thesis
    using aggregated_insights_merge [of exampleExperts] by (simp add: r)
qed

lemma set_keepFirst_id: "set (keepFirstByKey (\<lambda>u. u) xs) = set xs"
  using keepFirstByKey_keys [of "\<lambda>u. u" xs] by simp

lemma contributors_snoc:
  "contributors (rs @ [r]) k =
     (if methodologyKey r = k
      then (if fst r \<in> set (contributors rs k) then contributors rs k
            else contributors rs k @ [fst r])
      else contributors rs k)"
  by (simp add: contributors_def keepFirstByKey_snoc set_keepFirst_id)

lemma contributors_absent:
  assumes "k \<notin> methodologyKey ` set rs"
  shows "contributors rs k = []"
proof -
  from assms have "filter (\<lambda>r. methodologyKey r = k) rs = []"
    by (auto simp: filter_empty_conv)
  then show ?thesis by (simp add: contributors_def)
qed

lemma map_of_keyed:
  "map_of (map (\<lambda>r. (k r, e r)) xs) key = map_option e (find (\<lambda>r. k r = key) xs)"
  by (induction xs) auto

lemma update_keyed:
  "key \<in> k ` set xs \<Longrightarrow> distinct (map k xs) \<Longrightarrow>
   AList.update key v (map (\<lambda>r. (k r, e r)) xs)
     = map (\<lambda>r. (k r, if k r = key then v else e r)) xs"
  by (induction xs) (auto simp: image_iff)

lemma find_keyed_None: "key \<notin> k ` set xs \<Longrightarrow> find (\<lambda>r. k r = key) xs = None"
  by (induction xs) auto

lemma find_keyed_Some:
  "key \<in> k ` set xs \<Longrightarrow> \<exists>r. find (\<lambda>r. k r = key) xs = Some r \<and> k r = key \<and> r \<in> set xs"
  by (induction xs) auto


lemma methodologyStep_mergedMap:
  "methodologyStep (fst r) (mergedMap rs) (snd r) = mergedMap (rs @ [r])"
proof (cases "methodologyKey r \<in> methodologyKey ` set rs")
  case False
  then have nf: "find (\<lambda>q. methodologyKey q = methodologyKey r) (keepFirstByKey methodologyKey rs) = None"
    by (simp add: find_keyed_None keepFirstByKey_keys)
  have old: "\<And>q. q \<in> set (keepFirstByKey methodologyKey rs) \<Longrightarrow> mergedEntry (rs @ [r]) q = mergedEntry rs q"
  proof -
    fix q assume "q \<in> set (keepFirstByKey methodologyKey rs)"
    then have "q \<in> set rs" using keepFirstByKey_subset by fastforce
    with False have "methodologyKey r \<noteq> methodologyKey q" by auto
    then show "mergedEntry (rs @ [r]) q = mergedEntry rs q"
      by (simp add: mergedEntry_def contributors_snoc)
  qed
  have new: "mergedEntry (rs @ [r]) r = \<lparr>name = name (snd r), description = description (snd r),
                application = application (snd r), sources = [fst r]\<rparr>"
    using False by (simp add: mergedEntry_def contributors_snoc contributors_absent)
  have "mergedMap (rs @ [r]) = mergedMap rs @ [(methodologyKey r, mergedEntry (rs @ [r]) r)]"
    using False old by (simp add: mergedMap_def keepFirstByKey_snoc)
  then show ?thesis
    using nf new by (simp add: methodologyStep_def mergedMap_def map_of_keyed methodologyKey_def)
next
  case True
  let ?key = "methodologyKey r"
  let ?kf = "keepFirstByKey methodologyKey rs"
  from True have inkf: "?key \<in> methodologyKey ` set ?kf" by (simp add: keepFirstByKey_keys)
  then obtain q where q: "find (\<lambda>q. methodologyKey q = ?key) ?kf = Some q" "methodologyKey q = ?key"
      "q \<in> set ?kf"
    using find_keyed_Some [of ?key methodologyKey ?kf] by blast
  have kf: "keepFirstByKey methodologyKey (rs @ [r]) = ?kf"
    using True by (simp add: keepFirstByKey_snoc)
  have look: "map_of (mergedMap rs) ?key = Some (mergedEntry rs q)"
    using q by (simp add: mergedMap_def map_of_keyed)
  have src: "sources (mergedEntry rs q) = contributors rs ?key"
    using q by (simp add: mergedEntry_def)
  show ?thesis
  proof (cases "fst r \<in> set (contributors rs ?key)")
    case True
    then have "\<And>p. mergedEntry (rs @ [r]) p = mergedEntry rs p"
      by (auto simp add: mergedEntry_def contributors_snoc)
    then have "mergedMap (rs @ [r]) = mergedMap rs" using kf by (simp add: mergedMap_def)
    then show ?thesis using look src True
      by (simp add: methodologyStep_def Let_def methodologyKey_def [of r, symmetric])
  next
    case False
    have uniq: "\<And>p. p \<in> set ?kf \<Longrightarrow> methodologyKey p = ?key \<Longrightarrow> p = q"
      using keepFirstByKey_distinct [of methodologyKey rs] q
      by (simp add: distinct_map inj_on_def)
    have upd: "\<And>p. p \<in> set ?kf \<Longrightarrow> mergedEntry (rs @ [r]) p =
        (if methodologyKey p = ?key
         then (mergedEntry rs q)\<lparr>sources := sources (mergedEntry rs q) @ [fst r]\<rparr>
         else mergedEntry rs p)"
    proof -
      fix p assume p: "p \<in> set ?kf"
      show "mergedEntry (rs @ [r]) p =
        (if methodologyKey p = ?key
         then (mergedEntry rs q)\<lparr>sources := sources (mergedEntry rs q) @ [fst r]\<rparr>
         else mergedEntry rs p)"
      proof (cases "methodologyKey p = ?key")
        case True
        with p uniq have "p = q" by simp
        then show ?thesis using False q by (simp add: mergedEntry_def contributors_snoc)
      next
        case False
        then show ?thesis by (auto simp add: mergedEntry_def contributors_snoc)
      qed
    qed
    have "mergedMap (rs @ [r]) =
        map (\<lambda>p. (methodologyKey p, if methodologyKey p = ?key
               then (mergedEntry rs q)\<lparr>sources := sources (mergedEntry rs q) @ [fst r]\<rparr>
               else mergedEntry rs p)) ?kf"
      using kf upd by (simp add: mergedMap_def)
    also have "\<dots> = AList.update ?key ((mergedEntry rs q)\<lparr>sources := sources (mergedEntry rs q) @ [fst r]\<rparr>)
                       (mergedMap rs)"
      unfolding mergedMap_def
      by (rule update_keyed [OF inkf keepFirstByKey_distinct, symmetric])
    finally show ?thesis using look src False
      by (simp add: methodologyStep_def Let_def methodologyKey_def [of r, symmetric])
  qed
qed

lemma fold_methodologyStep:
  "fold (\<lambda>r mp. methodologyStep (fst r) mp (snd r)) rs [] = mergedMap rs"
proof (induction rs rule: rev_induct)
  case Nil
  then show ?case by (simp add: mergedMap_def)
next
  case (snoc r rs)
  then show ?case by (simp add: methodologyStep_mergedMap)
qed

lemma fold_experts_methodologies:
  "fold (\<lambda>e mp. fold (\<lambda>m mp'. methodologyStep (username (expert e)) mp' m)
                    (expertMethodologies e) mp) es mp0
     = fold (\<lambda>r mp. methodologyStep (fst r) mp (snd r)) (methodologyReports es) mp0"
proof (induction es arbitrary: mp0)
  case Nil
  then show ?case by (simp add: methodologyReports_def)
next
  case (Cons e es)
  have "\<And>ms mp. fold (\<lambda>m mp'. methodologyStep (username (expert e)) mp' m) ms mp
      = fold (\<lambda>r mp. methodologyStep (fst r) mp (snd r)) (map (\<lambda>m. (username (expert e), m)) ms) mp"
    by (simp add: fold_map comp_def)
  with Cons show ?case by (simp add: methodologyReports_def)
qed

lemma combineMethodologies_refines:
  "combineMethodologies es = mergedMethodologies_spec (methodologyReports es)"
  by (simp add: combineMethodologies_def fold_experts_methodologies fold_methodologyStep
        mergedMap_def mergedMethodologies_spec_def mergedEntry_def comp_def)

lemma mergedMethodologies_spec_entries:
  "mergedMethodologies_spec reports
     = map (mergedEntry reports) (keepFirstByKey methodologyKey reports)"
  by (simp add: mergedMethodologies_spec_def mergedEntry_def)

lemma mergedEntry_key: "toLowerCase (name (mergedEntry reports r)) = methodologyKey r"
  by (simp add: mergedEntry_def methodologyKey_def)

lemma set_contributors:
  "set (contributors reports k) = {u. \<exists>r \<in> set reports. fst r = u \<and> methodologyKey r = k}"
  by (auto simp: contributors_def set_keepFirst_id)

lemma distinct_contributors: "distinct (contributors reports k)"
  using keepFirstByKey_distinct [of "\<lambda>u. u" "map fst (filter (\<lambda>r. methodologyKey r = k) reports)"]
  by (simp add: contributors_def)

text \<open>
  C8. The aggregated methodologies hold exactly one entry per lowercased name. Each
  entry carries the name, description and application of the first report with that
  lowercased name, and its sources are the usernames of the experts that reported it,
  each once.
\<close>

theorem combineMethodologies_merge:
  "combineMethodologies es = mergedMethodologies_spec (methodologyReports es)
   \<and> distinct (map (\<lambda>m. toLowerCase (name m)) (combineMethodologies es))
   \<and> (\<lambda>m. toLowerCase (name m)) ` set (combineMethodologies es)
       = methodologyKey ` set (methodologyReports es)
   \<and> (\<forall>m \<in> set (combineMethodologies es).
        (\<exists>r. find (\<lambda>r. methodologyKey r = toLowerCase (name m)) (methodologyReports es) = Some r
             \<and> name m = name (snd r) \<and> description m = description (snd r)
             \<and> application m = application (snd r))
        \<and> distinct (sources m)
        \<and> set (sources m) = {u. \<exists>r \<in> set (methodologyReports es).
                                  fst r = u \<and> methodologyKey r = toLowerCase (name m)})"
proof -
  let ?rs = "methodologyReports es"
  let ?kept = "keepFirstByKey methodologyKey ?rs"
  have eq: "combineMethodologies es = map (mergedEntry ?rs) ?kept"
    by (simp add: combineMethodologies_refines mergedMethodologies_spec_entries)
  have keys: "map (\<lambda>m. toLowerCase (name m)) (map (mergedEntry ?rs) ?kept) = map methodologyKey ?kept"
    by (simp add: mergedEntry_key comp_def)
  have d: "distinct (map (\<lambda>m. toLowerCase (name m)) (combineMethodologies es))"
    unfolding eq keys by (rule keepFirstByKey_distinct)
  have "set (map (\<lambda>m. toLowerCase (name m)) (combineMethodologies es)) = methodologyKey ` set ?rs"
    unfolding eq keys by (simp add: keepFirstByKey_keys)
  then have ks: "(\<lambda>m. toLowerCase (name m)) ` set (combineMethodologies es) = methodologyKey ` set ?rs"
    by simp
  have each: "(\<exists>r. find (\<lambda>r. methodologyKey r = toLowerCase (name m)) ?rs = Some r
             \<and> name m = name (snd r) \<and> description m = description (snd r)
             \<and> application m = application (snd r))
        \<and> distinct (sources m)
        \<and> set (sources m) = {u. \<exists>r \<in> set ?rs. fst r = u \<and> methodologyKey r = toLowerCase (name m)}"
    if "m \<in> set (combineMethodologies es)" for m
  proof -
    from that obtain r where r: "r \<in> set ?kept" and m: "m = mergedEntry ?rs r"
      unfolding eq by auto
    have k: "toLowerCase (name m) = methodologyKey r" by (simp add: m mergedEntry_key)
    have f: "find (\<lambda>q. methodologyKey q = toLowerCase (name m)) ?rs = Some r"
      using keepFirstByKey_find [OF r] by (simp only: k)
    have fields: "name m = name (snd r) \<and> description m = description (snd r)
        \<and> application m = application (snd r)"
      by (simp add: m mergedEntry_def)
    have s: "sources m = contributors ?rs (toLowerCase (name m))"
      unfolding k by (simp add: m mergedEntry_def)
    have first: "\<exists>r. find (\<lambda>r. methodologyKey r = toLowerCase (name m)) ?rs = Some r
             \<and> name m = name (snd r) \<and> description m = description (snd r)
             \<and> application m = application (snd r)"
      using f fields by blast
    show ?thesis
      using first by (simp only: s distinct_contributors set_contributors simp_thms)
  qed
  show ?thesis using d ks each by (simp add: combineMethodologies_refines)
qed

theorem combineMethodologies_merge_witness:
  "combineMethodologies exampleExperts =
     [\<lparr>name = ''SMYKM'', description = ''Show me you know me'', application = None,
       sources = [''A'', ''B'']\<rparr>]
   \<and> set [''A'', ''B''] = {u. \<exists>r \<in> set (methodologyReports exampleExperts).
                              fst r = u \<and> methodologyKey r = toLowerCase ''SMYKM''}"
proof -
  have r: "combineMethodologies exampleExperts =
     [\<lparr>name = ''SMYKM'', description = ''Show me you know me'', application = None,
       sources = [''A'', ''B'']\<rparr>]"
    by (simp add: combineMethodologies_def exampleExperts_def exampleExpert_def
          expertMethodologies_def methodologyStep_def toLowerCase_def lowerChar_def
          char_of_nat_eval)
  show ?thesis
    using combineMethodologies_merge [of exampleExperts] by (simp add: r)
qed


section \<open>Properties of the run processor\<close>

lemma fetchRun_found:
  "db_error env SelectRun = None \<Longrightarrow> runs w rid = Some run \<Longrightarrow>
   fetchRun env rid w = (Inr (Some run), w)"
  by (simp add: fetchRun_def single_def checked_def)

lemma getActiveSession_none:
  assumes "db_error env SelectActiveSession = None"
    and "\<forall>s\<in>set (linked_sessions w). session_user_id s = uid \<longrightarrow> \<not> is_active s"
  shows "getActiveSession env uid w = (Inr None, w)"
proof -
  have "filter (\<lambda>s. session_user_id s = uid \<and> is_active s) (linked_sessions w) = []"
    using assms(2) by (auto simp: filter_empty_conv)
  then have "activeSessionRow uid w = None"
    by (simp add: activeSessionRow_def lastOption_def)
  then show ?thesis using assms(1)
    by (simp add: getActiveSession_def bindE_def single_def checked_def noRowsError_def returnE_def)
qed

lemma getLatestLoginEvent_found:
  "db_error env SelectLoginEvent = None \<Longrightarrow> latestLoginEvent rid w = Some ev \<Longrightarrow>
   getLatestLoginEvent env rid w = (Inr (Some (payload ev)), w)"
  by (simp add: getLatestLoginEvent_def bindE_def single_def checked_def returnE_def)

lemma captureSession_not_ready:
  "captureCookiesFromSession env pending = Inr []
     \<or> (\<exists>e. captureCookiesFromSession env pending = Inl e) \<Longrightarrow>
   captureSession env jobData run pending w = (Inr None, snd (requeue env jobData w))"
  by (auto simp: captureSession_def tryCatch_def bindE_def liftE_def requeue_def modifyW_def
        returnE_def)

text \<open>
  C1. A job whose user has no active session, whose run has a pending login request and
  whose cookie capture returns no cookie or throws, returns normally and changes the
  state in one place: one job with the same data and the delay \<open>requeueDelayMs\<close> is
  added to the queue. No status is written, so the run keeps the status it had.
\<close>

theorem login_not_ready_requeues:
  assumes "db_error env SelectRun = None" and "runs w (runId jobData) = Some run"
    and "db_error env SelectActiveSession = None"
    and "\<forall>s\<in>set (linked_sessions w). session_user_id s = user_id run \<longrightarrow> \<not> is_active s"
    and "db_error env SelectLoginEvent = None"
    and "latestLoginEvent (runId jobData) w = Some ev"
    and "captureCookiesFromSession env (payload ev) = Inr []
         \<or> (\<exists>e. captureCookiesFromSession env (payload ev) = Inl e)"
  shows "processRunJob env jobData w =
           (Inr (), w\<lparr>requeueQueue := requeueQueue w @
                       [\<lparr>job_name = ''run'', job_data = jobData, delay = requeueDelayMs env\<rparr>]\<rparr>)
         \<and> runs (snd (processRunJob env jobData w)) = runs w
         \<and> runs_updates (snd (processRunJob env jobData w)) = runs_updates w
         \<and> run_events (snd (processRunJob env jobData w)) = run_events w"
proof -
  have "processRunJob env jobData w =
           (Inr (), w\<lparr>requeueQueue := requeueQueue w @
                       [\<lparr>job_name = ''run'', job_data = jobData, delay = requeueDelayMs env\<rparr>]\<rparr>)"
    using fetchRun_found [OF assms(1,2)] getActiveSession_none [OF assms(3,4)]
      getLatestLoginEvent_found [OF assms(5,6)]
      captureSession_not_ready [OF assms(7), of jobData run w]
    by (simp add: processRunJob_def bindE_def returnE_def requeue_def modifyW_def)
  then show ?thesis by simp
qed

theorem login_not_ready_requeues_witness:
  "db_error exampleEnv SelectRun = None \<and> runs waitingWorld (runId exampleJob) = Some (exampleRun Needs_login)
   \<and> db_error exampleEnv SelectActiveSession = None
   \<and> linked_sessions waitingWorld = []
   \<and> db_error exampleEnv SelectLoginEvent = None
   \<and> latestLoginEvent (runId exampleJob) waitingWorld = Some exampleLoginEvent
   \<and> captureCookiesFromSession exampleEnv (payload exampleLoginEvent) = Inr []
   \<and> processRunJob exampleEnv exampleJob waitingWorld =
        (Inr (), waitingWorld\<lparr>requeueQueue :=
                   [\<lparr>job_name = ''run'', job_data = exampleJob, delay = 5000\<rparr>]\<rparr>)
   \<and> map_option status (runs (snd (processRunJob exampleEnv exampleJob waitingWorld)) ''run'')
       = Some Needs_login"
proof -
  have h: "db_error exampleEnv SelectRun = None"
    "runs waitingWorld (runId exampleJob) = Some (exampleRun Needs_login)"
    "db_error exampleEnv SelectActiveSession = None"
    "\<forall>s\<in>set (linked_sessions waitingWorld).
         session_user_id s = user_id (exampleRun Needs_login) \<longrightarrow> \<not> is_active s"
    "db_error exampleEnv SelectLoginEvent = None"
    "latestLoginEvent (runId exampleJob) waitingWorld = Some exampleLoginEvent"
    by (simp_all add: exampleEnv_def waitingWorld_def exampleJob_def latestLoginEvent_def
          lastOption_def exampleLoginEvent_def)
  have c: "captureCookiesFromSession exampleEnv (payload exampleLoginEvent) = Inr []"
    by (simp add: exampleEnv_def)
  have q: "requeueQueue waitingWorld = []" "requeueDelayMs exampleEnv = 5000"
    by (simp_all add: waitingWorld_def exampleEnv_def)
  have n: "linked_sessions waitingWorld = []"
    by (simp add: waitingWorld_def)
  have st: "map_option status (runs waitingWorld ''run'') = Some Needs_login"
    by (simp add: waitingWorld_def exampleRun_def)
  show ?thesis
    using login_not_ready_requeues [OF h disjI1 [OF c]] h c n st by (simp add: q)
qed


lemma sameRunState_refl: "sameRunState w w"
  by (simp add: sameRunState_def)

lemma sameRunState_trans: "sameRunState a b \<Longrightarrow> sameRunState b c \<Longrightarrow> sameRunState a c"
  by (simp add: sameRunState_def)

lemma keeps_returnE: "keeps (returnE x)"
  by (simp add: keeps_def returnE_def sameRunState_refl)

lemma keeps_throwE: "keeps (throwE e)"
  by (simp add: keeps_def throwE_def sameRunState_refl)

lemma keeps_liftE: "keeps (liftE r)"
  by (simp add: keeps_def liftE_def sameRunState_refl)

lemma keeps_throwIf: "keeps (throwIf err)"
  by (cases err) (simp_all add: throwIf_def keeps_returnE keeps_throwE)

lemma keeps_modifyW: "(\<And>w. sameRunState w (f w)) \<Longrightarrow> keeps (modifyW f)"
  by (simp add: keeps_def modifyW_def)

lemma keeps_bindE:
  assumes "keeps m" and "\<And>x. keeps (k x)"
  shows "keeps (bindE m k)"
proof -
  have "sameRunState w (snd (bindE m k w))" for w
  proof (cases "m w")
    case (Pair r w')
    have a: "sameRunState w w'" using assms(1) Pair by (metis keeps_def snd_conv)
    show ?thesis
    proof (cases r)
      case (Inl e)
      with Pair a show ?thesis by (simp add: bindE_def)
    next
      case (Inr x)
      have "sameRunState w' (snd (k x w'))" using assms(2) by (simp add: keeps_def)
      with Pair Inr a show ?thesis by (simp add: bindE_def) (rule sameRunState_trans)
    qed
  qed
  then show ?thesis by (simp add: keeps_def)
qed

lemma keeps_forEachE: "(\<And>x. keeps (f x)) \<Longrightarrow> keeps (forEachE f xs)"
  by (induction xs) (simp_all add: keeps_returnE keeps_bindE)

lemma keeps_mapE: "(\<And>x. keeps (f x)) \<Longrightarrow> keeps (mapE f xs)"
  by (induction xs) (simp_all add: keeps_returnE keeps_bindE)

lemma keeps_saveSession: "keeps (saveSession env uid cs expires)"
  unfolding saveSession_def deactivateSessions_def
  by (cases "db_error env DeactivateSessions")
     (auto intro!: keeps_bindE keeps_modifyW keeps_throwIf keeps_returnE simp: sameRunState_def)

lemma keeps_storeArtifact: "keeps (storeArtifact env rid t body)"
  unfolding storeArtifact_def Let_def
  by (auto intro!: keeps_bindE keeps_modifyW keeps_throwIf simp: sameRunState_def)

lemma keeps_incrementTokenUsage: "keeps (incrementTokenUsage env uid tokens)"
proof -
  have "keeps (readUsage env uid)"
    by (simp add: keeps_def readUsage_def sameRunState_refl)
  moreover have "keeps (writeUsage env uid data tokens)" for data
    unfolding writeUsage_def Let_def
    by (auto intro!: keeps_bindE keeps_modifyW keeps_throwIf simp: sameRunState_def)
  ultimately show ?thesis by (simp add: incrementTokenUsage_def keeps_bindE)
qed

lemma keeps_buildKnowledgeBundle: "keeps (buildKnowledgeBundle env a per ts n)"
  unfolding buildKnowledgeBundle_def Let_def
  by (intro keeps_bindE keeps_mapE keeps_liftE keeps_returnE)

lemma keeps_collectAndStore: "keeps (collectAndStore env rid run session)"
  unfolding collectAndStore_def
  by (intro keeps_bindE keeps_mapE keeps_forEachE keeps_liftE keeps_returnE keeps_throwIf
        keeps_storeArtifact keeps_buildKnowledgeBundle keeps_incrementTokenUsage)
     (simp_all add: keeps_saveSession keeps_returnE)


lemma dom_updateRow: "dom (runs (updateRow rid f w)) = dom (runs w)"
  by (auto simp: updateRow_def split: option.splits)

lemma updateRow_other:
  "run_events (updateRow rid f w) = run_events w"
  "runs_updates (updateRow rid f w) = runs_updates w"
  "requeueQueue (updateRow rid f w) = requeueQueue w"
  "scraper_closes (updateRow rid f w) = scraper_closes w"
  by (simp_all add: updateRow_def split: option.splits)

lemma updateRunStatus_unfold:
  "updateRunStatus env rid st reason w =
     (case db_error env (UpdateRun st) of
        Some e \<Rightarrow> (Inl e, w)
      | None \<Rightarrow>
          (case db_error env (InsertEvent (''status_'' @ statusName st)) of
             Some e \<Rightarrow> (Inl e, (updateRow rid (statusUpdates env st reason) w)
                                \<lparr>runs_updates := runs_updates w @ [(rid, st)]\<rparr>)
           | None \<Rightarrow> (Inr (), (updateRow rid (statusUpdates env st reason) w)
                                \<lparr>runs_updates := runs_updates w @ [(rid, st)],
                                 run_events := run_events w @ [statusEvent rid st reason]\<rparr>)))"
  by (simp add: updateRunStatus_def insertEvent_def bindE_def throwIf_def throwE_def returnE_def
        modifyW_def statusEvent_def updateRow_other split: option.splits)

lemma updateRunStatus_outcome:
  assumes "updateRunStatus env rid st reason w = (r, w')"
  shows "scraper_closes w' = scraper_closes w \<and> requeueQueue w' = requeueQueue w
     \<and> dom (runs w') = dom (runs w)
     \<and> ((isl r \<and> runs_updates w' = runs_updates w \<and> run_events w' = run_events w)
        \<or> (isl r \<and> runs_updates w' = runs_updates w @ [(rid, st)] \<and> run_events w' = run_events w)
        \<or> (\<not> isl r \<and> runs_updates w' = runs_updates w @ [(rid, st)]
            \<and> run_events w' = run_events w @ [statusEvent rid st reason]))"
proof (cases "db_error env (UpdateRun st)")
  case (Some e)
  with assms have "r = Inl e" "w' = w" by (simp_all add: updateRunStatus_unfold)
  then show ?thesis by simp
next
  case None
  note n1 = None
  show ?thesis
  proof (cases "db_error env (InsertEvent (''status_'' @ statusName st))")
    case (Some e)
    with n1 assms have "r = Inl e"
      "w' = (updateRow rid (statusUpdates env st reason) w)\<lparr>runs_updates := runs_updates w @ [(rid, st)]\<rparr>"
      by (simp_all add: updateRunStatus_unfold)
    then show ?thesis by (simp add: updateRow_other dom_updateRow)
  next
    case None
    with n1 assms have "r = Inr ()"
      "w' = (updateRow rid (statusUpdates env st reason) w)\<lparr>runs_updates := runs_updates w @ [(rid, st)],
              run_events := run_events w @ [statusEvent rid st reason]\<rparr>"
      by (simp_all add: updateRunStatus_unfold)
    then show ?thesis by (simp add: updateRow_other dom_updateRow)
  qed
qed

lemma recordCompleted_unfold:
  "recordCompleted env rid t sr w =
     (Inr (),
      (let w1 = (case db_error env (UpdateRun Completed) of
                   Some e \<Rightarrow> w
                 | None \<Rightarrow>
                     (updateRow rid (\<lambda>r. r\<lparr>status := Completed, completed_at := Some (now env),
                         token_estimate := t,
                         cost_estimate := Some (toFixed4 (real_of_int t / 1000000
                                                          * costPerMillionTokens env))\<rparr>) w)
                     \<lparr>runs_updates := runs_updates w @ [(rid, Completed)]\<rparr>)
       in case db_error env (InsertEvent ''completed'') of
            Some e \<Rightarrow> w1
          | None \<Rightarrow> w1\<lparr>run_events := run_events w1 @
               [\<lparr>event_run_id = rid, event_type = ''completed'',
                 payload = CompletedPayload t (length (byExpert sr)) (length (allPosts sr))\<rparr>]\<rparr>))"
  by (simp add: recordCompleted_def bindE_def modifyW_def returnE_def Let_def split: option.splits)

lemma recordCompleted_outcome:
  assumes "recordCompleted env rid t sr w = (r, w')"
  shows "\<not> isl r \<and> scraper_closes w' = scraper_closes w \<and> requeueQueue w' = requeueQueue w
     \<and> dom (runs w') = dom (runs w)
     \<and> (runs_updates w' = runs_updates w \<or> runs_updates w' = runs_updates w @ [(rid, Completed)])
     \<and> (\<exists>evs. run_events w' = run_events w @ evs \<and> (\<forall>ev\<in>set evs. event_type ev = ''completed''))"
proof -
  from assms have r: "r = Inr ()" and w': "w' = snd (recordCompleted env rid t sr w)"
    by (simp_all add: recordCompleted_unfold)
  show ?thesis
    unfolding r w' recordCompleted_unfold
    by (cases "db_error env (UpdateRun Completed)"; cases "db_error env (InsertEvent ''completed'')")
       (simp_all add: updateRow_other dom_updateRow)
qed

lemma processing_outcome:
  assumes "processing env rid run session w = (r, w')"
  shows "scraper_closes w' = scraper_closes w \<and> requeueQueue w' = requeueQueue w
     \<and> dom (runs w') = dom (runs w)
     \<and> (\<exists>ups evs. runs_updates w' = runs_updates w @ ups \<and> run_events w' = run_events w @ evs
          \<and> (\<forall>ev\<in>set evs. event_type ev \<in> {''status_running'', ''completed''})
          \<and> (ups = [] \<and> isl r \<or> ups = [(rid, Running)]
              \<or> ups = [(rid, Running), (rid, Completed)] \<and> \<not> isl r))"
proof (cases "scraper_init env (cookies session)")
  case (Some e)
  then have "processing env rid run session w = (Inl e, w)"
    by (simp add: processing_def bindE_def throwIf_def throwE_def)
  with assms show ?thesis by auto
next
  case None
  obtain r1 w1 where s1: "updateRunStatus env rid Running None w = (r1, w1)"
    by (cases "updateRunStatus env rid Running None w")
  note o1 = updateRunStatus_outcome [OF s1]
  show ?thesis
  proof (cases r1)
    case (Inl e)
    with None s1 have "processing env rid run session w = (Inl e, w1)"
      by (simp add: processing_def bindE_def throwIf_def returnE_def)
    with assms have "r = Inl e" "w' = w1" by simp_all
    with o1 Inl show ?thesis by auto
  next
    case (Inr u)
    obtain r2 w2 where s2: "collectAndStore env rid run session w1 = (r2, w2)"
      by (cases "collectAndStore env rid run session w1")
    have k: "sameRunState w1 w2"
      using keeps_collectAndStore [of env rid run session] s2 by (metis keeps_def snd_conv)
    show ?thesis
    proof (cases r2)
      case (Inl e)
      with None s1 s2 Inr have "processing env rid run session w = (Inl e, w2)"
        by (simp add: processing_def bindE_def throwIf_def returnE_def)
      with assms have "r = Inl e" "w' = w2" by simp_all
      with o1 Inr k show ?thesis by (auto simp: sameRunState_def statusEvent_def)
    next
      case (Inr res)
      obtain r3 w3 where s3: "recordCompleted env rid (fst res) (snd res) w2 = (r3, w3)"
        by (cases "recordCompleted env rid (fst res) (snd res) w2")
      note o3 = recordCompleted_outcome [OF s3]
      from None s1 s2 s3 Inr \<open>r1 = Inr u\<close>
      have "processing env rid run session w = (r3, w3)"
        by (simp add: processing_def bindE_def throwIf_def returnE_def)
      with assms have "r = r3" "w' = w3" by simp_all
      with o1 o3 \<open>r1 = Inr u\<close> k show ?thesis
        by (auto simp: sameRunState_def statusEvent_def)
    qed
  qed
qed



lemma processRunJob_active_session:
  assumes "fetchRun env (runId jobData) w = (Inr (Some run), w)"
    and "getActiveSession env (user_id run) w = (Inr (Some session), w)"
  shows "processRunJob env jobData w = runWithSession env (runId jobData) run session w"
  using assms by (simp add: processRunJob_def bindE_def)

lemma statusEvent_type: "event_type (statusEvent rid st reason) = ''status_'' @ statusName st"
  by (simp add: statusEvent_def)

lemma scraperClose_unfold:
  "scraperClose env w =
     ((case scraper_close env of Some e \<Rightarrow> Inl e | None \<Rightarrow> Inr ()),
      w\<lparr>scraper_closes := scraper_closes w + 1\<rparr>)"
  by (simp add: scraperClose_def bindE_def modifyW_def throwIf_def throwE_def returnE_def
        split: option.splits)

lemma tryFinally_close_world:
  "snd (tryFinally m (scraperClose env) w)
     = (snd (m w))\<lparr>scraper_closes := scraper_closes (snd (m w)) + 1\<rparr>"
  by (cases "m w"; cases "scraper_close env") (simp_all add: tryFinally_def scraperClose_unfold)

lemma handler_world:
  "snd (bindE (updateRunStatus env rid Failed reason) (\<lambda>u. throwE e) w)
     = snd (updateRunStatus env rid Failed reason w)"
  by (cases "updateRunStatus env rid Failed reason w")
     (simp add: bindE_def throwE_def split: sum.splits)

lemma guarded_world:
  assumes "processing env rid run session w = (r, w1)"
  shows "snd (tryCatch (processing env rid run session)
                (\<lambda>e. bindE (updateRunStatus env rid Failed (Some (failureReason e)))
                        (\<lambda>u. throwE e)) w)
     = (case r of Inl e \<Rightarrow> snd (updateRunStatus env rid Failed (Some (failureReason e)) w1)
        | Inr x \<Rightarrow> w1)"
  using assms by (cases r) (simp_all add: tryCatch_def handler_world)

lemma guarded_outcome:
  fixes env rid run session w
  defines "w2 \<equiv> snd (tryCatch (processing env rid run session)
                (\<lambda>e. bindE (updateRunStatus env rid Failed (Some (failureReason e)))
                        (\<lambda>u. throwE e)) w)"
  shows "scraper_closes w2 = scraper_closes w \<and> requeueQueue w2 = requeueQueue w
     \<and> (\<exists>ups. runs_updates w2 = runs_updates w @ ups
          \<and> ups \<in> {[], [(rid, Failed)], [(rid, Running)], [(rid, Running), (rid, Failed)],
                    [(rid, Running), (rid, Completed)]})"
proof -
  obtain r w1 where p: "processing env rid run session w = (r, w1)"
    by (cases "processing env rid run session w")
  note o = processing_outcome [OF p]
  show ?thesis
  proof (cases r)
    case (Inr x)
    with p have "w2 = w1" by (simp add: w2_def guarded_world)
    with o Inr show ?thesis by auto
  next
    case (Inl e)
    obtain r' w' where u: "updateRunStatus env rid Failed (Some (failureReason e)) w1 = (r', w')"
      by (cases "updateRunStatus env rid Failed (Some (failureReason e)) w1")
    note o' = updateRunStatus_outcome [OF u]
    from p Inl u have "w2 = w'" by (simp add: w2_def guarded_world)
    with o o' Inl show ?thesis by auto
  qed
qed

lemma runWithSession_outcome:
  fixes env rid run session w
  defines "w3 \<equiv> snd (runWithSession env rid run session w)"
  shows "scraper_closes w3 = scraper_closes w + 1 \<and> requeueQueue w3 = requeueQueue w
     \<and> (\<exists>ups. runs_updates w3 = runs_updates w @ ups
          \<and> ups \<in> {[], [(rid, Failed)], [(rid, Running)], [(rid, Running), (rid, Failed)],
                    [(rid, Running), (rid, Completed)]})"
  using guarded_outcome [of env rid run session w]
  unfolding w3_def runWithSession_def tryFinally_close_world by simp

lemma runWithSession_failure_world:
  assumes "processing env rid run session w = (Inl e, w1)"
    and "db_error env (UpdateRun Failed) = None"
    and "db_error env (InsertEvent ''status_failed'') = None"
  shows "snd (runWithSession env rid run session w) =
     (updateRow rid (statusUpdates env Failed (Some (failureReason e))) w1)
       \<lparr>runs_updates := runs_updates w1 @ [(rid, Failed)],
        run_events := run_events w1 @ [statusEvent rid Failed (Some (failureReason e))],
        scraper_closes := scraper_closes w1 + 1\<rparr>"
  unfolding runWithSession_def tryFinally_close_world guarded_world [OF assms(1)]
  using assms(2,3) by (simp add: updateRunStatus_unfold updateRow_other)

text \<open>
  C2. Every call of \<open>runWithSession\<close> calls \<open>scraper.close()\<close> once, whether the
  processing returns or throws. When the processing throws \<open>e\<close> and the store accepts
  the two statements of \<open>updateRunStatus\<close>, the call adds exactly one update to the
  status \<open>failed\<close> and exactly one event \<open>status_failed\<close>, both with the reason
  \<open>failureReason e\<close>, which is the message of \<open>e\<close> when it has one; the stored row then
  has the status \<open>failed\<close> and that reason.
\<close>

theorem failure_recorded_and_scraper_closed:
  "scraper_closes (snd (runWithSession env rid run session w)) = scraper_closes w + 1
   \<and> (\<forall>e w1. processing env rid run session w = (Inl e, w1)
         \<and> db_error env (UpdateRun Failed) = None
         \<and> db_error env (InsertEvent ''status_failed'') = None
       \<longrightarrow> (\<exists>ups evs.
              runs_updates (snd (runWithSession env rid run session w)) = runs_updates w @ ups
              \<and> filter (\<lambda>u. snd u = Failed) ups = [(rid, Failed)]
              \<and> run_events (snd (runWithSession env rid run session w)) = run_events w @ evs
              \<and> filter (\<lambda>ev. event_type ev = ''status_failed'') evs
                  = [statusEvent rid Failed (Some (failureReason e))]
              \<and> (runs w rid \<noteq> None \<longrightarrow>
                   map_option status (runs (snd (runWithSession env rid run session w)) rid)
                     = Some Failed
                   \<and> map_option failure_reason
                       (runs (snd (runWithSession env rid run session w)) rid)
                     = Some (Some (failureReason e)))
              \<and> (\<forall>m. err_message e = Some m \<longrightarrow> failureReason e = m)))"
proof (intro conjI allI impI)
  show "scraper_closes (snd (runWithSession env rid run session w)) = scraper_closes w + 1"
    using runWithSession_outcome [of env rid run session w] by simp
next
  fix e w1
  assume a: "processing env rid run session w = (Inl e, w1)
         \<and> db_error env (UpdateRun Failed) = None
         \<and> db_error env (InsertEvent ''status_failed'') = None"
  let ?w3 = "snd (runWithSession env rid run session w)"
  let ?reason = "failureReason e"
  from a have p: "processing env rid run session w = (Inl e, w1)" by simp
  have w3: "?w3 = (updateRow rid (statusUpdates env Failed (Some ?reason)) w1)
       \<lparr>runs_updates := runs_updates w1 @ [(rid, Failed)],
        run_events := run_events w1 @ [statusEvent rid Failed (Some ?reason)],
        scraper_closes := scraper_closes w1 + 1\<rparr>"
    using a by (simp add: runWithSession_failure_world)
  from processing_outcome [OF p] obtain ups evs where
    o: "dom (runs w1) = dom (runs w)" "runs_updates w1 = runs_updates w @ ups"
       "run_events w1 = run_events w @ evs"
       "\<forall>ev\<in>set evs. event_type ev \<in> {''status_running'', ''completed''}"
       "ups = [] \<or> ups = [(rid, Running)]"
    by auto
  have f1: "filter (\<lambda>u. snd u = Failed) (ups @ [(rid, Failed)]) = [(rid, Failed)]"
    using o(5) by auto
  have "filter (\<lambda>ev. event_type ev = ''status_failed'') evs = []"
    using o(4) by (auto simp: filter_empty_conv)
  then have f2: "filter (\<lambda>ev. event_type ev = ''status_failed'')
        (evs @ [statusEvent rid Failed (Some ?reason)]) = [statusEvent rid Failed (Some ?reason)]"
    by (simp add: statusEvent_type)
  have row: "map_option status (runs ?w3 rid) = Some Failed
      \<and> map_option failure_reason (runs ?w3 rid) = Some (Some ?reason)"
    if "runs w rid \<noteq> None"
  proof -
    from that o(1) obtain r1 where "runs w1 rid = Some r1" by (metis domD domIff)
    then show ?thesis
      by (simp add: w3 updateRow_def statusUpdates_def)
  qed
  have msg: "\<forall>m. err_message e = Some m \<longrightarrow> failureReason e = m"
    by (simp add: failureReason_def)
  have u3: "runs_updates ?w3 = runs_updates w @ (ups @ [(rid, Failed)])"
    by (simp add: w3 o(2))
  have e3: "run_events ?w3 = run_events w @ (evs @ [statusEvent rid Failed (Some ?reason)])"
    by (simp add: w3 o(3))
  show "\<exists>ups evs.
              runs_updates ?w3 = runs_updates w @ ups
              \<and> filter (\<lambda>u. snd u = Failed) ups = [(rid, Failed)]
              \<and> run_events ?w3 = run_events w @ evs
              \<and> filter (\<lambda>ev. event_type ev = ''status_failed'') evs
                  = [statusEvent rid Failed (Some (failureReason e))]
              \<and> (runs w rid \<noteq> None \<longrightarrow>
                   map_option status (runs ?w3 rid) = Some Failed
                   \<and> map_option failure_reason (runs ?w3 rid) = Some (Some (failureReason e)))
              \<and> (\<forall>m. err_message e = Some m \<longrightarrow> failureReason e = m)"
    using u3 f1 e3 f2 row msg by blast
qed



theorem failure_recorded_and_scraper_closed_witness:
  "fst (processing exampleEnv ''run'' (exampleRun Queued) exampleSession (sessionWorld Queued))
     = Inl (JsError None (Some ''LinkedIn session invalid''))
   \<and> db_error exampleEnv (UpdateRun Failed) = None
   \<and> db_error exampleEnv (InsertEvent ''status_failed'') = None
   \<and> runs (sessionWorld Queued) ''run'' \<noteq> None
   \<and> map_option status
        (runs (snd (runWithSession exampleEnv ''run'' (exampleRun Queued) exampleSession
                      (sessionWorld Queued))) ''run'') = Some Failed
   \<and> map_option failure_reason
        (runs (snd (runWithSession exampleEnv ''run'' (exampleRun Queued) exampleSession
                      (sessionWorld Queued))) ''run'') = Some (Some ''LinkedIn session invalid'')
   \<and> scraper_closes (snd (runWithSession exampleEnv ''run'' (exampleRun Queued)
                              exampleSession (sessionWorld Queued))) = 1"
proof -
  let ?e = "JsError None (Some ''LinkedIn session invalid'')"
  let ?p = "processing exampleEnv ''run'' (exampleRun Queued) exampleSession (sessionWorld Queued)"
  have f: "fst ?p = Inl ?e"
    by (simp add: processing_def bindE_def throwIf_def returnE_def updateRunStatus_unfold
          collectAndStore_def liftE_def exampleEnv_def)
  then have p: "?p = (Inl ?e, snd ?p)" by (metis prod.collapse)
  have d: "db_error exampleEnv (UpdateRun Failed) = None"
    "db_error exampleEnv (InsertEvent ''status_failed'') = None"
    by (simp_all add: exampleEnv_def)
  have r: "runs (sessionWorld Queued) ''run'' \<noteq> None" "scraper_closes (sessionWorld Queued) = 0"
    by (simp_all add: sessionWorld_def)
  have m: "failureReason ?e = ''LinkedIn session invalid''"
    by (simp add: failureReason_def)
  show ?thesis
    using failure_recorded_and_scraper_closed
      [of exampleEnv "''run''" "exampleRun Queued" exampleSession "sessionWorld Queued"] p d r f
    by (auto simp: m)
qed

lemma prelude_worlds:
  "snd (fetchRun env rid w) = w"
  "snd (getActiveSession env uid w) = w"
  "snd (getLatestLoginEvent env rid w) = w"
  by (auto simp: fetchRun_def getActiveSession_def getLatestLoginEvent_def bindE_def returnE_def
        liftE_def split: sum.splits option.splits prod.splits)

lemma requeue_unfold:
  "requeue env jobData w =
     (Inr (), w\<lparr>requeueQueue := requeueQueue w @
                 [\<lparr>job_name = ''run'', job_data = jobData, delay = requeueDelayMs env\<rparr>]\<rparr>)"
  by (simp add: requeue_def modifyW_def)

lemma ensureLoginSession_updates:
  "runs_updates (snd (ensureLoginSession env rid uid w)) = runs_updates w
   \<or> runs_updates (snd (ensureLoginSession env rid uid w)) = runs_updates w @ [(rid, Needs_login)]"
  by (cases "createSession env"; cases "db_error env (UpdateRun Needs_login)";
      cases "db_error env (InsertEvent ''needs_login'')")
     (simp_all add: ensureLoginSession_def bindE_def liftE_def throwIf_def throwE_def returnE_def
        modifyW_def insertEvent_def updateRow_other)

lemma captureSession_updates:
  "runs_updates (snd (captureSession env jobData run pending w)) = runs_updates w"
proof (cases "captureCookiesFromSession env pending")
  case (Inl e)
  then show ?thesis
    by (simp add: captureSession_def tryCatch_def bindE_def liftE_def requeue_unfold returnE_def)
next
  case (Inr cs)
  show ?thesis
  proof (cases "cs = []")
    case True
    with Inr show ?thesis
      by (simp add: captureSession_def tryCatch_def bindE_def liftE_def requeue_unfold returnE_def)
  next
    case False
    obtain r w1 where s: "saveSession env (user_id run) cs (payloadExpiresAt pending) w = (r, w1)"
      by (cases "saveSession env (user_id run) cs (payloadExpiresAt pending) w")
    have "sameRunState w w1"
      using keeps_saveSession [of env "user_id run" cs "payloadExpiresAt pending"] s
      by (metis keeps_def snd_conv)
    then have k: "runs_updates w1 = runs_updates w" by (simp add: sameRunState_def)
    from Inr False s k show ?thesis
      by (cases r)
         (simp_all add: captureSession_def tryCatch_def bindE_def liftE_def requeue_unfold
            returnE_def)
  qed
qed

text \<open>
  C3 (as amended). One call of \<open>processRunJob\<close> writes at most two statuses to the run
  of its job, in the order of the state machine: nothing, \<open>needs_login\<close>, \<open>failed\<close>,
  \<open>running\<close>, \<open>running\<close> then \<open>failed\<close>, or \<open>running\<close> then \<open>completed\<close>.
\<close>

theorem status_writes_of_one_job:
  "\<exists>ups. runs_updates (snd (processRunJob env jobData w)) = runs_updates w @ ups
     \<and> ups \<in> {[], [(runId jobData, Needs_login)], [(runId jobData, Failed)],
               [(runId jobData, Running)],
               [(runId jobData, Running), (runId jobData, Failed)],
               [(runId jobData, Running), (runId jobData, Completed)]}"
proof -
  let ?rid = "runId jobData"
  let ?S = "{[], [(?rid, Needs_login)], [(?rid, Failed)], [(?rid, Running)],
             [(?rid, Running), (?rid, Failed)], [(?rid, Running), (?rid, Completed)]}"
  have session: "\<exists>ups. runs_updates (snd (runWithSession env ?rid run session w0))
        = runs_updates w0 @ ups \<and> ups \<in> ?S" for run session w0
    using runWithSession_outcome [of env ?rid run session w0] by auto
  obtain r0 where f: "fetchRun env ?rid w = (r0, w)"
    using prelude_worlds(1) [of env ?rid w] by (metis prod.collapse)
  show ?thesis
  proof (cases r0)
    case (Inl e)
    with f show ?thesis by (simp add: processRunJob_def bindE_def)
  next
    case (Inr found)
    show ?thesis
    proof (cases found)
      case None
      with f Inr show ?thesis by (simp add: processRunJob_def bindE_def returnE_def)
    next
      case (Some run)
      obtain r1 where a: "getActiveSession env (user_id run) w = (r1, w)"
        using prelude_worlds(2) [of env "user_id run" w] by (metis prod.collapse)
      show ?thesis
      proof (cases r1)
        case (Inl e)
        with f \<open>r0 = Inr found\<close> Some a show ?thesis by (simp add: processRunJob_def bindE_def)
      next
        case (Inr active)
        note r1 = Inr
        show ?thesis
        proof (cases active)
          case (Some session)
          with f \<open>r0 = Inr found\<close> \<open>found = Some run\<close> a r1
          have "processRunJob env jobData w = runWithSession env ?rid run session w"
            by (simp add: processRunJob_def bindE_def)
          then show ?thesis using session [of run session w] by simp
        next
          case None
          obtain r2 where l: "getLatestLoginEvent env ?rid w = (r2, w)"
            using prelude_worlds(3) [of env ?rid w] by (metis prod.collapse)
          show ?thesis
          proof (cases r2)
            case (Inl e)
            with f \<open>r0 = Inr found\<close> \<open>found = Some run\<close> a r1 None l show ?thesis
              by (simp add: processRunJob_def bindE_def)
          next
            case (Inr latest)
            note r2 = Inr
            show ?thesis
            proof (cases latest)
              case None
              with f \<open>r0 = Inr found\<close> \<open>found = Some run\<close> a r1 \<open>active = None\<close> l r2
              have "runs_updates (snd (processRunJob env jobData w))
                  = runs_updates (snd (ensureLoginSession env ?rid (user_id run) w))"
                by (cases "ensureLoginSession env ?rid (user_id run) w")
                   (simp add: processRunJob_def bindE_def requeue_unfold split: sum.splits)
              then show ?thesis
                using ensureLoginSession_updates [of env ?rid "user_id run" w] by auto
            next
              case (Some pending)
              obtain r3 w3 where c: "captureSession env jobData run pending w = (r3, w3)"
                by (cases "captureSession env jobData run pending w")
              have k: "runs_updates w3 = runs_updates w"
                using captureSession_updates [of env jobData run pending w] c by simp
              from f \<open>r0 = Inr found\<close> \<open>found = Some run\<close> a r1 \<open>active = None\<close> l r2 Some c
              have "processRunJob env jobData w =
                  (case r3 of Inl e \<Rightarrow> (Inl e, w3)
                   | Inr None \<Rightarrow> (Inr (), w3)
                   | Inr (Some session) \<Rightarrow> runWithSession env ?rid run session w3)"
                by (simp add: processRunJob_def bindE_def returnE_def
                      split: sum.splits option.splits)
              then show ?thesis
                using k session [of run _ w3]
                by (auto split: sum.splits option.splits)
            qed
          qed
        qed
      qed
    qed
  qed
qed

text \<open>
  The stored status is never read: the job of a run that is \<open>failed\<close>, processed
  again, sets it to \<open>running\<close> and then to \<open>completed\<close>.
\<close>

theorem failed_run_overwritten_counterexample:
  "map_option status (runs (sessionWorld Failed) ''run'') = Some Failed
   \<and> map_option status
        (runs (snd (processRunJob workingEnv exampleJob (sessionWorld Failed))) ''run'')
       = Some Completed
   \<and> runs_updates (snd (processRunJob workingEnv exampleJob (sessionWorld Failed)))
       = [(''run'', Running), (''run'', Completed)]"
  by (simp add: processRunJob_def fetchRun_def getActiveSession_def activeSessionRow_def
        lastOption_def single_def checked_def noRowsError_def bindE_def returnE_def liftE_def
        runWithSession_def tryFinally_def tryCatch_def processing_def throwIf_def throwE_def
        modifyW_def updateRunStatus_unfold collectAndStore_def buildKnowledgeBundle_def
        storeArtifact_def saveSession_def incrementTokenUsage_def readUsage_def writeUsage_def
        recordCompleted_unfold tokensOf_def scraperClose_unfold updateRow_def statusUpdates_def
        workingEnv_def exampleEnv_def exampleJob_def sessionWorld_def exampleRun_def Let_def)

lemma incrementTokenUsage_adds:
  assumes "db_error env SelectUsage = None" and "db_error env UpsertUsage = None"
  shows "tokensUsedOf (snd (incrementTokenUsage env uid tokens w)) (uid, periodStart env)
           = tokensUsedOf w (uid, periodStart env) + tokens"
  using assms
  by (cases "usage_counters w (uid, periodStart env)")
     (simp_all add: incrementTokenUsage_def readUsage_def writeUsage_def bindE_def single_def
        checked_def noRowsError_def throwIf_def returnE_def modifyW_def tokensUsedOf_def)

text \<open>
  C10. \<open>incrementTokenUsage\<close> reads the counter and then writes the sum it computed.
  With 100 tokens stored, two calls adding 10 and 20 store 130 when one follows the
  other, and 120 when both read before either writes: the increment of 10 is lost.
\<close>

theorem interleaved_increments_lose_tokens:
  "tokensUsedOf (sessionWorld Queued) (''user'', ''2025-03-01'') = 100
   \<and> tokensUsedOf (snd (bindE (incrementTokenUsage exampleEnv ''user'' 10)
                           (\<lambda>u. incrementTokenUsage exampleEnv ''user'' 20) (sessionWorld Queued)))
        (''user'', ''2025-03-01'') = 130
   \<and> tokensUsedOf (snd (interleavedIncrements exampleEnv ''user'' 10 20 (sessionWorld Queued)))
        (''user'', ''2025-03-01'') = 120"
  by (simp add: interleavedIncrements_def incrementTokenUsage_def readUsage_def writeUsage_def
        bindE_def single_def checked_def throwIf_def returnE_def modifyW_def tokensUsedOf_def
        periodStart_def exampleEnv_def sessionWorld_def)


section \<open>Properties of the analysis\<close>

lemma calculateConfidence_range:
  "0.1 \<le> calculateConfidence post keywordMatches \<and> calculateConfidence post keywordMatches \<le> 1"
  by (simp add: calculateConfidence_def Let_def)

text \<open>
  C6. The keyword fallback clamps its confidence to [0.1, 1]. The AI path does not
  clamp: a response that reports the confidence 1.5 gives an insight with the
  confidence 1.5.
\<close>

theorem ai_confidence_not_clamped:
  "0.1 \<le> calculateConfidence post keywordMatches
   \<and> calculateConfidence post keywordMatches \<le> 1
   \<and> map confidence
        (found_insights (parseAnalysisResponse exampleClaude ''analysis'' examplePost)) = [3 / 2]"
  using calculateConfidence_range [of post keywordMatches]
  by (simp add: parseAnalysisResponse_def exampleClaude_def orEmpty_def orHalf_def enumerate_eq_zip)

lemma analyzePost_returns: "\<exists>result. fst (analyzePost env post topicList) = Inr result"
  by (simp add: analyzePost_def Let_def split: sum.splits option.splits)

text \<open>
  C4 (as amended). \<open>analyzePost\<close> never throws. When its extraction request fails, it
  sends one more request, without images, only if an image had been downloaded and the
  error message contains \<open>image\<close>, and then returns the empty result if the retry
  gives none; otherwise it sends nothing more and returns the empty result.
\<close>

theorem analyzePost_failure_policy:
  "(\<exists>result. fst (analyzePost env post topicList) = Inr result)
   \<and> emptyAnalysis = \<lparr>found_insights = [], found_templates = [], found_actionableItems = [],
                       found_methodologies = []\<rparr>
   \<and> (\<forall>error. extractionAttempt env (analysisRequest env post topicList) post = Inl error \<longrightarrow>
        (if downloadImages env post \<noteq> [] \<and> messageIncludes error ''image''
         then snd (analyzePost env post topicList)
                = [analysisRequest env post topicList,
                   (analysisRequest env post topicList)\<lparr>images := []\<rparr>]
              \<and> (retryAttempt env ((analysisRequest env post topicList)\<lparr>images := []\<rparr>) post = None
                   \<longrightarrow> fst (analyzePost env post topicList) = Inr emptyAnalysis)
         else snd (analyzePost env post topicList) = [analysisRequest env post topicList]
              \<and> fst (analyzePost env post topicList) = Inr emptyAnalysis))"
proof (intro conjI allI impI)
  show "\<exists>result. fst (analyzePost env post topicList) = Inr result"
    by (rule analyzePost_returns)
next
  show "emptyAnalysis = \<lparr>found_insights = [], found_templates = [], found_actionableItems = [],
                       found_methodologies = []\<rparr>"
    by (simp add: emptyAnalysis_def)
next
  fix error
  assume "extractionAttempt env (analysisRequest env post topicList) post = Inl error"
  moreover have "images (analysisRequest env post topicList) = downloadImages env post"
    by (simp add: analysisRequest_def)
  ultimately show "if downloadImages env post \<noteq> [] \<and> messageIncludes error ''image''
         then snd (analyzePost env post topicList)
                = [analysisRequest env post topicList,
                   (analysisRequest env post topicList)\<lparr>images := []\<rparr>]
              \<and> (retryAttempt env ((analysisRequest env post topicList)\<lparr>images := []\<rparr>) post = None
                   \<longrightarrow> fst (analyzePost env post topicList) = Inr emptyAnalysis)
         else snd (analyzePost env post topicList) = [analysisRequest env post topicList]
              \<and> fst (analyzePost env post topicList) = Inr emptyAnalysis"
    by (simp add: analyzePost_def Let_def split: option.splits)
qed

lemma exampleClaude_image_request:
  "extractionAttempt exampleClaude (analysisRequest exampleClaude imagePost None) imagePost
     = Inl (JsError None (Some ''Could not process image''))"
  "downloadImages exampleClaude imagePost = [\<lparr>media_type = ''image/png'', image_data = ''AAAA''\<rparr>]"
  "messageIncludes (JsError None (Some ''Could not process image'')) ''image''"
  by (simp_all add: extractionAttempt_def analysisRequest_def downloadImages_def imagePost_def
        examplePost_def exampleClaude_def messageIncludes_def List.map_filter_def)

theorem analyzePost_failure_policy_witness:
  "extractionAttempt exampleClaude (analysisRequest exampleClaude imagePost None) imagePost
     = Inl (JsError None (Some ''Could not process image''))
   \<and> downloadImages exampleClaude imagePost \<noteq> []
   \<and> messageIncludes (JsError None (Some ''Could not process image'')) ''image''
   \<and> snd (analyzePost exampleClaude imagePost None)
       = [analysisRequest exampleClaude imagePost None,
          (analysisRequest exampleClaude imagePost None)\<lparr>images := []\<rparr>]"
  using analyzePost_failure_policy [of exampleClaude imagePost None] exampleClaude_image_request
  by simp

text \<open>
  A request that fails with a rate limit is not sent again, although the post has an
  image.
\<close>

theorem no_retry_without_image_error_counterexample:
  "extractionAttempt rateLimitedClaude (analysisRequest rateLimitedClaude imagePost None) imagePost
     = Inl (JsError None (Some ''rate limit exceeded''))
   \<and> snd (analyzePost rateLimitedClaude imagePost None)
       = [analysisRequest rateLimitedClaude imagePost None]"
  by (simp add: analyzePost_def extractionAttempt_def rateLimitedClaude_def messageIncludes_def
        Let_def)

lemma scoreBatches_total:
  assumes "0 < batchSize"
  shows "scoreBatches env topicList batchSize ps i acc =
           Some (acc @ map (\<lambda>post. (post, scorePostRelevance env post topicList)) (drop i ps))"
proof (induction "length ps - i" arbitrary: i acc rule: less_induct)
  case less
  show ?case
  proof (cases "i < length ps")
    case True
    then have "length ps - (i + batchSize) < length ps - i" using assms by arith
    note IH = less.hyps [OF this]
    have "take batchSize (drop i ps) @ drop (i + batchSize) ps = drop i ps"
      by (metis add.commute append_take_drop_id drop_drop)
    then have "map (\<lambda>post. (post, scorePostRelevance env post topicList)) (take batchSize (drop i ps))
        @ map (\<lambda>post. (post, scorePostRelevance env post topicList)) (drop (i + batchSize) ps)
        = map (\<lambda>post. (post, scorePostRelevance env post topicList)) (drop i ps)"
      by (metis map_append)
    with True IH show ?thesis
      by (subst scoreBatches.simps) simp
  next
    case False
    then show ?thesis by (subst scoreBatches.simps) simp
  qed
qed

text \<open>
  C5. With a positive batch size, when every post scores at most 0.6 the call returns
  no insight, template, actionable item or methodology, and the extraction pass sends
  no request.
\<close>

theorem no_relevant_posts_no_extraction:
  assumes "0 < batchSize"
    and "\<forall>post\<in>set ps. scorePostRelevance env post topicList \<le> 0.6"
  shows "batchAnalyzePosts env ps batchSize topicList =
           Some (Inr \<lparr>found_insights = [], found_templates = [], found_actionableItems = [],
                      found_methodologies = []\<rparr>, [])"
proof -
  have "filter (\<lambda>scored. snd scored > 0.6)
          (map (\<lambda>post. (post, scorePostRelevance env post topicList)) ps) = []"
    using assms(2) by (auto simp: filter_empty_conv)
  then show ?thesis
    by (simp add: batchAnalyzePosts_def scoreBatches_total [OF assms(1)] emptyAnalysis_def)
qed

theorem no_relevant_posts_no_extraction_witness:
  "(0::nat) < 5
   \<and> scorePostRelevance exampleClaude examplePost None \<le> 0.6
   \<and> scorePostRelevance exampleClaude imagePost None \<le> 0.6
   \<and> batchAnalyzePosts exampleClaude [examplePost, imagePost] 5 None =
        Some (Inr \<lparr>found_insights = [], found_templates = [], found_actionableItems = [],
                   found_methodologies = []\<rparr>, [])"
proof -
  have s: "scorePostRelevance exampleClaude examplePost None \<le> 0.6"
    "scorePostRelevance exampleClaude imagePost None \<le> 0.6"
    by (simp_all add: scorePostRelevance_def exampleClaude_def)
  then have "\<forall>post\<in>set [examplePost, imagePost]. scorePostRelevance exampleClaude post None \<le> 0.6"
    by simp
  from no_relevant_posts_no_extraction [OF _ this, of 5] s show ?thesis by simp
qed


end
